theory Spec2Isabelle
  imports Main "HOL-Library.AList"
begin

section \<open>The update-dependencies workflow of the scope\<close>

text \<open>
  A shallow embedding of \<^verbatim>\<open>UpdateDependenciesMain\<close>
  (\<^verbatim>\<open>scopes/scope/update-dependencies/update-dependencies.main.runtime.ts\<close>).
  The class drives a batch of components through import, parsing, version planning,
  dependency rewriting, staging, build and commit. Its collaborators (the scope, the
  builder, the dependency resolver, the legacy helpers of \<^verbatim>\<open>bit-bin\<close>) live in
  other packages: every call to one of them is a field of the record \<open>env\<close> below, and
  every call that writes to the store or to a remote is recorded in a trace of events.
  JavaScript's in-place mutation of the components is explicit state passing; a
  \<^verbatim>\<open>throw\<close> is a returned error, together with the state the objects were left in.
\<close>

subsection \<open>Identifiers\<close>

text \<open>
  \<^verbatim>\<open>BitId\<close>: the legacy identifier, a scope, a name and an optional version string.
  \<^verbatim>\<open>ComponentID\<close> wraps one (\<^verbatim>\<open>_legacy\<close>); \<^verbatim>\<open>changeVersion\<close> builds a new
  identifier and \<^verbatim>\<open>version\<close> reads the wrapped one.
\<close>

record BitId =
  scope :: "string option"
  name :: string
  version :: "string option"

datatype ComponentID = ComponentID (legacy: BitId)

definition cid_version :: "ComponentID \<Rightarrow> string option" where
  "cid_version i = version (legacy i)"

definition changeVersion :: "ComponentID \<Rightarrow> string option \<Rightarrow> ComponentID" where
  "changeVersion i v = ComponentID ((legacy i)\<lparr>version := v\<rparr>)"

text \<open>
  Modelled from the spec: the constant \<^verbatim>\<open>LATEST\<close> of \<^verbatim>\<open>bit-bin/dist/constants\<close>,
  the "latest known version" token of the import step.
\<close>

definition LATEST :: string where
  "LATEST = ''latest''"

text \<open>
  JavaScript truthiness of an optional string, as \<^verbatim>\<open>x || d\<close> and \<^verbatim>\<open>!x\<close> use it:
  \<^verbatim>\<open>undefined\<close> and the empty string are falsy.
\<close>

definition truthy :: "string option \<Rightarrow> bool" where
  "truthy x = (case x of None \<Rightarrow> False | Some s \<Rightarrow> s \<noteq> [])"

definition or_default :: "string option \<Rightarrow> string \<Rightarrow> string" where
  "or_default x d = (case x of None \<Rightarrow> d | Some s \<Rightarrow> if s = [] then d else s)"

text \<open>Truthiness of an optional boolean flag (\<^verbatim>\<open>tag?: boolean\<close>).\<close>

definition flag :: "bool option \<Rightarrow> bool" where
  "flag b = (b = Some True)"

text \<open>
  Modelled from the spec: \<^verbatim>\<open>BitIds.searchWithoutVersion\<close> of \<^verbatim>\<open>bit-bin/dist/bit-id\<close>,
  the lookup "keyed by identifier-ignoring-version": the first identifier of the array
  with the same scope and name, whatever its version.
\<close>

definition isEqualWithoutVersion :: "BitId \<Rightarrow> BitId \<Rightarrow> bool" where
  "isEqualWithoutVersion a b = (name a = name b \<and> scope a = scope b)"

definition searchWithoutVersion :: "BitId list \<Rightarrow> BitId \<Rightarrow> BitId option" where
  "searchWithoutVersion ids b = find (\<lambda>i. isEqualWithoutVersion i b) ids"

subsection \<open>Components\<close>

datatype BuildStatus = Pending | Failed | Succeed

record Log =
  username :: string
  email :: string
  message :: string
  date :: string

text \<open>
  A dependency edge of a legacy component: the target identifier and the package name
  other components import it by.
\<close>

record Dependency =
  dep_id :: BitId
  packageName :: "string option"

text \<open>
  \<^verbatim>\<open>ExtensionDataEntry(legacyId, extensionId, name, config, data)\<close>. The data object is
  an association list of its top-level fields, in insertion order.
\<close>

record 'x ExtensionDataEntry =
  legacyId :: "string option"
  extensionId :: "BitId option"
  ext_name :: "string option"
  config :: "(string \<times> 'x) list option"
  data :: "(string \<times> 'x) list"

text \<open>
  Modelled from the spec: the legacy component class \<^verbatim>\<open>ConsumerComponent\<close> of
  \<^verbatim>\<open>bit-bin/dist/consumer/component\<close>, with the fields the workflow reads and writes:
  the parts of its identifier, the mutable \<open>version\<close> the planner assigns, the runtime
  and development dependency edges, the extension records, the build status and the
  provenance log. Its \<^verbatim>\<open>id\<close> is assembled from scope, name and the current version.
\<close>

record 'x ConsumerComponent =
  c_scope :: "string option"
  c_name :: string
  c_version :: "string option"
  dependencies :: "Dependency list"
  devDependencies :: "Dependency list"
  extensions :: "'x ExtensionDataEntry list"
  buildStatus :: "BuildStatus option"
  log :: "Log option"

definition c_id :: "'x ConsumerComponent \<Rightarrow> BitId" where
  "c_id c = \<lparr>scope = c_scope c, name = c_name c, version = c_version c\<rparr>"

text \<open>
  Modelled from the spec: the class \<^verbatim>\<open>Component\<close> of \<^verbatim>\<open>@teambit/component\<close>. The spec
  gives a component an immutable identifier (a scope, name, version triple) and, apart
  from it, a mutable version assigned by the planner. Here \<open>comp_id\<close> is
  \<^verbatim>\<open>component.id\<close>, fixed when the store builds the component, and \<open>state_consumer\<close> is
  \<^verbatim>\<open>component.state._consumer\<close>, the legacy component the workflow mutates.
  Identifiers are values (\<^verbatim>\<open>changeVersion\<close> returns a new one) and the workflow never
  assigns \<^verbatim>\<open>component.id\<close>; it rebuilds the whole component from its legacy component
  in \<^verbatim>\<open>updateComponents\<close> once the mutations are done.
\<close>

record 'x Component =
  comp_id :: ComponentID
  state_consumer :: "'x ConsumerComponent"

record DepUpdateItemRaw =
  componentId :: string
  raw_dependencies :: "string list"
  raw_versionToTag :: "string option"

record 'x DepUpdateItem =
  component :: "'x Component"
  item_dependencies :: "ComponentID list"
  versionToTag :: "string option"

record UpdateDepsOptions =
  tag :: "bool option"
  snap :: "bool option"
  opt_output :: "string option"
  multiple :: "bool option"
  opt_message :: "string option"
  opt_username :: "string option"
  opt_email :: "string option"

record 'x UpdateDepsResult =
  res_depsUpdateItems :: "'x DepUpdateItem list"
  publishedPackages :: "string list"
  error :: "string option"

text \<open>What the workflow throws: \<^verbatim>\<open>ComponentNotFound\<close> and plain \<^verbatim>\<open>Error\<close>s.\<close>

datatype exn = ComponentNotFound ComponentID | Error string

subsection \<open>Collaborators\<close>

text \<open>
  \<^verbatim>\<open>getValidVersionOrReleaseType\<close> returns a release type or an exact version.
\<close>

record VersionOrReleaseType =
  releaseType :: "string option"
  exactVersion :: "string option"

text \<open>
  The calls into other packages, as the workflow makes them. The store is read after
  the import step, so the reading functions stand for the store as the import left it.
  \<^item> \<open>fromString\<close>, \<open>cidToString\<close>, \<open>bidToString\<close>: \<^verbatim>\<open>ComponentID.fromString\<close> and the
    two \<^verbatim>\<open>toString\<close> methods;
  \<^item> \<open>scope_get\<close>: \<^verbatim>\<open>scope.get\<close>;
  \<^item> \<open>listVersions\<close>, \<open>satisfies\<close>, \<open>versionKey\<close>: the version history of a component,
    whether a version satisfies a semver range, and the semver precedence of a
    version (a key into a linear order);
  \<^item> \<open>getVersionToAdd\<close>, \<open>getSnapToAdd\<close>: \<^verbatim>\<open>getModelComponent(id)\<close> followed by the
    method of that name;
  \<^item> \<open>findPackageName\<close>: \<^verbatim>\<open>getDependencies(component)\<close> followed by
    \<^verbatim>\<open>findDependency(depIdStr)?.getPackageName?.()\<close>;
  \<^item> \<open>extractDepsFromLegacy\<close>, \<open>depResolverId\<close>: the dependency resolver's extraction and
    \<^verbatim>\<open>DependencyResolverAspect.id\<close>;
  \<^item> \<open>addFlattenedDependencies\<close>, \<open>updateComponentByTagResult\<close>: what the two legacy
    helpers do to one legacy component of the batch;
  \<^item> \<open>tagListener\<close> with its two option flags, the first of which (\<^verbatim>\<open>throwOnError\<close>)
    lets the builder throw instead of returning pipeline results; \<open>hasErrors\<close> and
    \<open>getErrorMessageFormatted\<close> of a pipeline result;
  \<^item> \<open>date_now\<close>: the clock, at its n-th reading.
  The builder apart, whose option asks it to throw, a collaborator is taken here as
  returning: what the store, the planner's helpers or the exporter throw is decided in
  their own packages and ends the workflow at that call.
\<close>

record ('x, 'k, 'p, 'b, 'r) env =
  fromString :: "string \<Rightarrow> ComponentID"
  cidToString :: "ComponentID \<Rightarrow> string"
  bidToString :: "BitId \<Rightarrow> string"
  scope_get :: "ComponentID \<Rightarrow> 'x Component option"
  listVersions :: "ComponentID \<Rightarrow> string list"
  satisfies :: "string \<Rightarrow> string \<Rightarrow> bool"
  versionKey :: "string \<Rightarrow> 'k"
  getValidVersionOrReleaseType :: "string \<Rightarrow> VersionOrReleaseType"
  getVersionToAdd :: "BitId \<Rightarrow> string option \<Rightarrow> string option \<Rightarrow> string"
  getSnapToAdd :: "BitId \<Rightarrow> string"
  findPackageName :: "'x Component \<Rightarrow> string \<Rightarrow> string option"
  extractDepsFromLegacy :: "'x Component \<Rightarrow> 'x"
  depResolverId :: string
  addFlattenedDependencies ::
    "'x ConsumerComponent list \<Rightarrow> 'x ConsumerComponent \<Rightarrow> 'x ConsumerComponent"
  getFromConsumerComponent :: "'x ConsumerComponent \<Rightarrow> 'x Component"
  tagListener :: "'x Component list \<Rightarrow> bool \<Rightarrow> bool \<Rightarrow> exn + 'b \<times> 'p list"
  builderDataMapToLegacyOnTagResults :: "'b \<Rightarrow> 'r"
  updateComponentByTagResult :: "'r \<Rightarrow> 'x ConsumerComponent \<Rightarrow> 'x ConsumerComponent"
  getPublishedPackages :: "'x ConsumerComponent list \<Rightarrow> string list"
  hasErrors :: "'p \<Rightarrow> bool"
  getErrorMessageFormatted :: "'p \<Rightarrow> string"
  date_now :: "nat \<Rightarrow> string"

text \<open>The writes to the store and to the remotes, in the order they are issued.\<close>

datatype 'x event =
    ScopeImport "ComponentID list" bool
  | AddSourceFromScope "'x ConsumerComponent"
  | EnrichSource "'x ConsumerComponent"
  | Persist
  | RemoteAction "string option" "string list"
  | ExportMany "BitId list"

text \<open>
  The fields of the instance (\<^verbatim>\<open>this.depsUpdateItems\<close>) and the trace of the writes.
  \<^verbatim>\<open>this.updateDepsOptions\<close> is assigned first and never changed: it is passed along.
\<close>

record 'x state =
  depsUpdateItems :: "'x DepUpdateItem list"
  trace :: "'x event list"

definition components :: "'x state \<Rightarrow> 'x Component list" where
  "components s = map component (depsUpdateItems s)"

definition legacyComponents :: "'x state \<Rightarrow> 'x ConsumerComponent list" where
  "legacyComponents s = map (\<lambda>d. state_consumer (component d)) (depsUpdateItems s)"

text \<open>An assignment to the legacy component of an item, through the two references.\<close>

definition on_legacy ::
  "('x ConsumerComponent \<Rightarrow> 'x ConsumerComponent) \<Rightarrow> 'x DepUpdateItem \<Rightarrow> 'x DepUpdateItem" where
  "on_legacy f d = d\<lparr>component := (component d)\<lparr>state_consumer := f (state_consumer (component d))\<rparr>\<rparr>"

text \<open>\<^verbatim>\<open>mapSeries\<close> over a body that may throw: the first error ends the series.\<close>

fun mapSeries :: "('a \<Rightarrow> exn + 'b) \<Rightarrow> 'a list \<Rightarrow> exn + 'b list" where
  "mapSeries f [] = Inr []"
| "mapSeries f (x # xs) =
     (case f x of
        Inl e \<Rightarrow> Inl e
      | Inr y \<Rightarrow> (case mapSeries f xs of Inl e \<Rightarrow> Inl e | Inr ys \<Rightarrow> Inr (y # ys)))"

subsection \<open>Import\<close>

text \<open>
  \<^verbatim>\<open>importAllMissing\<close>: one call of \<^verbatim>\<open>scope.import(idsToImport, false)\<close>.
\<close>

definition importAllMissing ::
  "('x, 'k, 'p, 'b, 'r) env \<Rightarrow> UpdateDepsOptions \<Rightarrow> DepUpdateItemRaw list \<Rightarrow> 'x state \<Rightarrow> 'x state" where
  "importAllMissing env opts depsUpdateItemsRaw s =
     (let componentIds = map (\<lambda>d. fromString env (componentId d)) depsUpdateItemsRaw;
          dependenciesIds =
            map (\<lambda>item. map (\<lambda>i. changeVersion i (Some LATEST))
                              (map (fromString env) (raw_dependencies item)))
                depsUpdateItemsRaw;
          idsToImport = concat dependenciesIds;
          idsToImport = (if flag (multiple opts) then idsToImport @ componentIds else idsToImport)
      in s\<lparr>trace := trace s @ [ScopeImport idsToImport False]\<rparr>)"

subsection \<open>Parsing and resolving\<close>

text \<open>
  Modelled from the spec: \<^verbatim>\<open>scope.getExactVersionBySemverRange\<close> of \<^verbatim>\<open>@teambit/scope\<close>,
  which scans the component's known version history and returns the highest version
  satisfying the range, or nothing when none does.
\<close>

definition higher :: "('v \<Rightarrow> 'k::linorder) \<Rightarrow> 'v \<Rightarrow> 'v option \<Rightarrow> 'v option" where
  "higher key v best =
     (case best of None \<Rightarrow> Some v | Some b \<Rightarrow> if key b < key v then Some v else Some b)"

definition maxSatisfying :: "('v \<Rightarrow> 'k::linorder) \<Rightarrow> ('v \<Rightarrow> bool) \<Rightarrow> 'v list \<Rightarrow> 'v option" where
  "maxSatisfying key ok vs = fold (higher key) (filter ok vs) None"

definition getExactVersionBySemverRange ::
  "('x, 'k::linorder, 'p, 'b, 'r) env \<Rightarrow> ComponentID \<Rightarrow> string \<Rightarrow> string option" where
  "getExactVersionBySemverRange env i rng =
     maxSatisfying (versionKey env) (\<lambda>v. satisfies env v rng) (listVersions env i)"

definition dquote :: string where
  "dquote = [CHR 0x22]"

definition getDependencyWithExactVersion ::
  "('x, 'k::linorder, 'p, 'b, 'r) env \<Rightarrow> string \<Rightarrow> exn + ComponentID" where
  "getDependencyWithExactVersion env depStr =
     (let compId = fromString env depStr;
          rng = or_default (cid_version compId) ''*'';
          i = changeVersion compId None;
          exactVersion = getExactVersionBySemverRange env i rng
      in if \<not> truthy exactVersion
         then Inl (Error (''unable to find a version that satisfies '' @ dquote @ rng @ dquote
                          @ '' of '' @ dquote @ depStr @ dquote))
         else Inr (changeVersion compId exactVersion))"

text \<open>
  The body of \<^verbatim>\<open>parseDevUpdatesItems\<close> for one raw item. The dependencies are
  resolved under \<^verbatim>\<open>Promise.all\<close>; every rejection is an \<^verbatim>\<open>Error\<close> of
  \<^verbatim>\<open>getDependencyWithExactVersion\<close>, taken here in the order of the list.
\<close>

definition parseDevUpdatesItem ::
  "('x, 'k::linorder, 'p, 'b, 'r) env \<Rightarrow> DepUpdateItemRaw \<Rightarrow> exn + 'x DepUpdateItem" where
  "parseDevUpdatesItem env depUpdateItemRaw =
     (let cid = fromString env (componentId depUpdateItemRaw) in
      case scope_get env cid of
        None \<Rightarrow> Inl (ComponentNotFound cid)
      | Some cmp \<Rightarrow>
          (case mapSeries (getDependencyWithExactVersion env) (raw_dependencies depUpdateItemRaw) of
             Inl e \<Rightarrow> Inl e
           | Inr deps \<Rightarrow>
               Inr \<lparr>component = cmp, item_dependencies = deps,
                    versionToTag = raw_versionToTag depUpdateItemRaw\<rparr>))"

definition parseDevUpdatesItems ::
  "('x, 'k::linorder, 'p, 'b, 'r) env \<Rightarrow> DepUpdateItemRaw list \<Rightarrow> exn + 'x DepUpdateItem list" where
  "parseDevUpdatesItems env depsUpdateItemsRaw = mapSeries (parseDevUpdatesItem env) depsUpdateItemsRaw"

subsection \<open>Version planning\<close>

text \<open>The body of \<^verbatim>\<open>updateFutureVersion\<close> for one item.\<close>

definition futureVersion ::
  "('x, 'k, 'p, 'b, 'r) env \<Rightarrow> UpdateDepsOptions \<Rightarrow> 'x DepUpdateItem \<Rightarrow> string" where
  "futureVersion env opts depUpdateItem =
     (let legacyComp = state_consumer (component depUpdateItem);
          modelComponent = c_id legacyComp
      in if flag (tag opts)
         then (let r = getValidVersionOrReleaseType env (or_default (versionToTag depUpdateItem) ''patch'')
               in getVersionToAdd env modelComponent (releaseType r) (exactVersion r))
         else getSnapToAdd env modelComponent)"

definition updateFutureVersion ::
  "('x, 'k, 'p, 'b, 'r) env \<Rightarrow> UpdateDepsOptions \<Rightarrow> 'x state \<Rightarrow> 'x state" where
  "updateFutureVersion env opts s =
     s\<lparr>depsUpdateItems :=
         map (\<lambda>d. on_legacy (\<lambda>c. c\<lparr>c_version := Some (futureVersion env opts d)\<rparr>) d)
             (depsUpdateItems s)\<rparr>"

subsection \<open>Rewriting the dependencies of one component\<close>

text \<open>
  The loop \<^verbatim>\<open>deps.forEach\<close> of \<^verbatim>\<open>updateDependenciesVersionsOfComponent\<close>. The
  dependency objects are mutated in place, so the result is the list as the loop left
  it: when an edge throws, the edges before it are rewritten already and the edge
  itself and those after it are not. \<open>pkg\<close> is \<^verbatim>\<open>dependenciesList\<close>, read before the
  loop; the \<^verbatim>\<open>logger.debug\<close> calls are left out.
\<close>

fun updateDeps ::
  "(BitId \<Rightarrow> string) \<Rightarrow> (string \<Rightarrow> string option) \<Rightarrow> string \<Rightarrow> BitId list \<Rightarrow>
   Dependency list \<Rightarrow> Dependency list \<times> exn option" where
  "updateDeps toStr pkg componentIdStr updatedIds [] = ([], None)"
| "updateDeps toStr pkg componentIdStr updatedIds (dep # deps) =
     (case searchWithoutVersion updatedIds (dep_id dep) of
        None \<Rightarrow>
          (case updateDeps toStr pkg componentIdStr updatedIds deps of
             (deps', e) \<Rightarrow> (dep # deps', e))
      | Some updatedBitId \<Rightarrow>
          (let depIdStr = toStr (dep_id dep);
               packageName = pkg depIdStr
           in if \<not> truthy packageName
              then (dep # deps,
                    Some (Error (''unable to find the package-name of '' @ dquote @ depIdStr @ dquote
                                 @ '' dependency inside the dependency-resolver data of ''
                                 @ dquote @ componentIdStr @ dquote)))
              else (case updateDeps toStr pkg componentIdStr updatedIds deps of
                      (deps', e) \<Rightarrow>
                        (dep\<lparr>dep_id := updatedBitId, packageName := packageName\<rparr> # deps', e))))"

text \<open>The loop \<^verbatim>\<open>legacyComponent.extensions.forEach\<close>, which never throws.\<close>

definition updateExtension :: "BitId list \<Rightarrow> 'x ExtensionDataEntry \<Rightarrow> 'x ExtensionDataEntry" where
  "updateExtension updatedIds ext =
     (case extensionId ext of
        None \<Rightarrow> ext
      | Some eid \<Rightarrow>
          (case searchWithoutVersion updatedIds eid of
             None \<Rightarrow> ext
           | Some updatedBitId \<Rightarrow> ext\<lparr>extensionId := Some updatedBitId\<rparr>))"

text \<open>
  \<^verbatim>\<open>updateDependenciesVersionsOfComponent\<close>. \<^verbatim>\<open>deps\<close> is the runtime edges followed by
  the development edges, the same objects as in the component
  (\<^verbatim>\<open>dependencies.get()\<close> hands out the array itself), so the rewritten list is split
  back at the length of the runtime edges.
\<close>

definition updateDependenciesVersionsOfComponent ::
  "('x, 'k, 'p, 'b, 'r) env \<Rightarrow> 'x Component \<Rightarrow> ComponentID list \<Rightarrow> BitId list \<Rightarrow>
   'x Component \<times> exn option" where
  "updateDependenciesVersionsOfComponent env cmp deps_ids currentBitIds =
     (let depsBitIds = map legacy deps_ids;
          updatedIds = currentBitIds @ depsBitIds;
          componentIdStr = cidToString env (comp_id cmp);
          legacyComponent = state_consumer cmp;
          deps = dependencies legacyComponent @ devDependencies legacyComponent;
          dependenciesList = findPackageName env cmp
      in case updateDeps (bidToString env) dependenciesList componentIdStr updatedIds deps of
           (deps', e) \<Rightarrow>
             (let n = length (dependencies legacyComponent);
                  legacyComponent = legacyComponent\<lparr>dependencies := take n deps',
                                                    devDependencies := drop n deps'\<rparr>
              in case e of
                   Some err \<Rightarrow> (cmp\<lparr>state_consumer := legacyComponent\<rparr>, Some err)
                 | None \<Rightarrow>
                     (cmp\<lparr>state_consumer :=
                             legacyComponent\<lparr>extensions :=
                               map (updateExtension updatedIds) (extensions legacyComponent)\<rparr>\<rparr>,
                      None)))"

subsection \<open>Updating the dependency-resolver data\<close>

text \<open>
  Modelled from the spec: \<^verbatim>\<open>ExtensionDataList.findExtension\<close> of
  \<^verbatim>\<open>bit-bin/dist/consumer/config\<close>, the first extension record of the component whose
  identifier (the string of its \<^verbatim>\<open>extensionId\<close>, or else its name) is the one asked for.
\<close>

definition stringId :: "('x, 'k, 'p, 'b, 'r) env \<Rightarrow> 'x ExtensionDataEntry \<Rightarrow> string option" where
  "stringId env ext =
     (case extensionId ext of Some b \<Rightarrow> Some (bidToString env b) | None \<Rightarrow> ext_name ext)"

definition isExtension :: "('x, 'k, 'p, 'b, 'r) env \<Rightarrow> string \<Rightarrow> 'x ExtensionDataEntry \<Rightarrow> bool" where
  "isExtension env extId ext = (stringId env ext = Some extId)"

definition findExtension ::
  "('x, 'k, 'p, 'b, 'r) env \<Rightarrow> 'x ExtensionDataEntry list \<Rightarrow> string \<Rightarrow> 'x ExtensionDataEntry option" where
  "findExtension env exts extId = find (isExtension env extId) exts"

text \<open>A mutation of the object that \<^verbatim>\<open>find\<close> returned: of the first match in the list.\<close>

fun updateFirst :: "('a \<Rightarrow> bool) \<Rightarrow> ('a \<Rightarrow> 'a) \<Rightarrow> 'a list \<Rightarrow> 'a list" where
  "updateFirst P f [] = []"
| "updateFirst P f (x # xs) = (if P x then f x # xs else x # updateFirst P f xs)"

text \<open>
  \<^verbatim>\<open>Object.assign(existingExtension.data, { dependencies })\<close>: the field is replaced
  where it stands, or added last.
\<close>

definition assignDependencies :: "'x \<Rightarrow> 'x ExtensionDataEntry \<Rightarrow> 'x ExtensionDataEntry" where
  "assignDependencies deps ext = ext\<lparr>data := AList.update ''dependencies'' deps (data ext)\<rparr>"

definition updateDependencyResolver ::
  "('x, 'k, 'p, 'b, 'r) env \<Rightarrow> 'x Component \<Rightarrow> 'x Component" where
  "updateDependencyResolver env cmp =
     (let deps = extractDepsFromLegacy env cmp;
          extId = depResolverId env;
          legacyComponent = state_consumer cmp
      in case findExtension env (extensions legacyComponent) extId of
           Some existingExtension \<Rightarrow>
             cmp\<lparr>state_consumer :=
                   legacyComponent\<lparr>extensions :=
                     updateFirst (isExtension env extId) (assignDependencies deps)
                                 (extensions legacyComponent)\<rparr>\<rparr>
         | None \<Rightarrow>
             cmp\<lparr>state_consumer :=
                   legacyComponent\<lparr>extensions :=
                     extensions legacyComponent @
                     [\<lparr>legacyId = None, extensionId = None, ext_name = Some extId,
                       config = None, data = [(''dependencies'', deps)]\<rparr>]\<rparr>\<rparr>)"

subsection \<open>Rewriting the batch\<close>

text \<open>
  The series of \<^verbatim>\<open>updateAllDeps\<close>: one component after the other, each rewritten and
  then given its dependency-resolver data. When a component throws, it stays as its
  loop left it, the components before it are rewritten and those after it untouched.
\<close>

fun updateAllDepsSeries ::
  "('x, 'k, 'p, 'b, 'r) env \<Rightarrow> BitId list \<Rightarrow> 'x DepUpdateItem list \<Rightarrow>
   'x DepUpdateItem list \<times> exn option" where
  "updateAllDepsSeries env currentBitIds [] = ([], None)"
| "updateAllDepsSeries env currentBitIds (d # ds) =
     (case updateDependenciesVersionsOfComponent env (component d) (item_dependencies d) currentBitIds of
        (c', Some err) \<Rightarrow> (d\<lparr>component := c'\<rparr> # ds, Some err)
      | (c', None) \<Rightarrow>
          (case updateAllDepsSeries env currentBitIds ds of
             (ds', e) \<Rightarrow> (d\<lparr>component := updateDependencyResolver env c'\<rparr> # ds', e)))"

definition updateAllDeps ::
  "('x, 'k, 'p, 'b, 'r) env \<Rightarrow> 'x state \<Rightarrow> 'x state \<times> exn option" where
  "updateAllDeps env s =
     (let comps = map component (depsUpdateItems s);
          currentBitIds = map (\<lambda>c. legacy (comp_id c)) comps
      in case updateAllDepsSeries env currentBitIds (depsUpdateItems s) of
           (ds', e) \<Rightarrow> (s\<lparr>depsUpdateItems := ds'\<rparr>, e))"

subsection \<open>Provenance, status and staging\<close>

definition addLogToComponents ::
  "('x, 'k, 'p, 'b, 'r) env \<Rightarrow> UpdateDepsOptions \<Rightarrow> 'x state \<Rightarrow> 'x state" where
  "addLogToComponents env opts s =
     s\<lparr>depsUpdateItems :=
         map (\<lambda>(n, d). on_legacy (\<lambda>c. c\<lparr>log := Some
                 \<lparr>username = or_default (opt_username opts) ''ci'',
                  email = or_default (opt_email opts) ''ci@bit.dev'',
                  message = or_default (opt_message opts) ''update-dependencies'',
                  date = date_now env n\<rparr>\<rparr>) d)
             (enumerate 0 (depsUpdateItems s))\<rparr>"

definition addFlattenedDependenciesToComponents ::
  "('x, 'k, 'p, 'b, 'r) env \<Rightarrow> 'x state \<Rightarrow> 'x state" where
  "addFlattenedDependenciesToComponents env s =
     s\<lparr>depsUpdateItems :=
         map (on_legacy (addFlattenedDependencies env (legacyComponents s))) (depsUpdateItems s)\<rparr>"

definition addBuildStatus :: "'x state \<Rightarrow> 'x state" where
  "addBuildStatus s =
     s\<lparr>depsUpdateItems := map (on_legacy (\<lambda>c. c\<lparr>buildStatus := Some Pending\<rparr>)) (depsUpdateItems s)\<rparr>"

definition addComponentsToScope :: "'x state \<Rightarrow> 'x state" where
  "addComponentsToScope s = s\<lparr>trace := trace s @ map AddSourceFromScope (legacyComponents s)\<rparr>"

definition updateComponents :: "('x, 'k, 'p, 'b, 'r) env \<Rightarrow> 'x state \<Rightarrow> 'x state" where
  "updateComponents env s =
     s\<lparr>depsUpdateItems :=
         map (\<lambda>d. d\<lparr>component := getFromConsumerComponent env (state_consumer (component d))\<rparr>)
             (depsUpdateItems s)\<rparr>"

definition updateComponentsByTagResult ::
  "('x, 'k, 'p, 'b, 'r) env \<Rightarrow> 'r \<Rightarrow> 'x state \<Rightarrow> 'x state" where
  "updateComponentsByTagResult env legacyBuildResults s =
     s\<lparr>depsUpdateItems :=
         map (on_legacy (updateComponentByTagResult env legacyBuildResults)) (depsUpdateItems s)\<rparr>"

subsection \<open>Commit\<close>

text \<open>
  \<^verbatim>\<open>saveDataIntoLocalScope\<close>: each legacy component gets the status and is handed to
  \<^verbatim>\<open>enrichSource\<close>; then the objects are persisted.
\<close>

definition saveDataIntoLocalScope :: "BuildStatus \<Rightarrow> 'x state \<Rightarrow> 'x state" where
  "saveDataIntoLocalScope status s =
     (let ds = map (on_legacy (\<lambda>c. c\<lparr>buildStatus := Some status\<rparr>)) (depsUpdateItems s)
      in s\<lparr>depsUpdateItems := ds,
           trace := trace s @ map (\<lambda>d. EnrichSource (state_consumer (component d))) ds @ [Persist]\<rparr>)"

definition export :: "'x state \<Rightarrow> 'x state" where
  "export s = s\<lparr>trace := trace s @ [ExportMany (map c_id (legacyComponents s))]\<rparr>"

text \<open>
  \<^verbatim>\<open>clearScopesCaches\<close>: one \<^verbatim>\<open>PostSign\<close> action for each scope name of the batch, with
  the identifiers of that scope. The scope names are the keys of the grouping, in the
  order of their first identifier.
\<close>

definition clearScopesCaches :: "('x, 'k, 'p, 'b, 'r) env \<Rightarrow> 'x state \<Rightarrow> 'x state" where
  "clearScopesCaches env s =
     (let bitIds = map c_id (legacyComponents s);
          scopeNames = rev (remdups (rev (map scope bitIds)))
      in s\<lparr>trace := trace s @
            map (\<lambda>scopeName. RemoteAction scopeName
                   (map (bidToString env) (filter (\<lambda>i. scope i = scopeName) bitIds)))
                scopeNames\<rparr>)"

subsection \<open>The workflow\<close>

text \<open>
  \<^verbatim>\<open>updateDependenciesVersions\<close>. It returns the state it leaves behind with either the
  error thrown or the result. The builder is called with \<^verbatim>\<open>throwOnError: true\<close> and
  \<^verbatim>\<open>seedersOnly: true\<close>; what it throws ends the workflow, what it returns is looked
  through for a pipeline result with errors.
\<close>

definition updateDependenciesVersions ::
  "('x, 'k::linorder, 'p, 'b, 'r) env \<Rightarrow> DepUpdateItemRaw list \<Rightarrow> UpdateDepsOptions \<Rightarrow> 'x state \<Rightarrow>
   'x state \<times> (exn + 'x UpdateDepsResult)" where
  "updateDependenciesVersions env depsUpdateItemsRaw opts s0 =
     (let s = importAllMissing env opts depsUpdateItemsRaw s0 in
      case parseDevUpdatesItems env depsUpdateItemsRaw of
        Inl e \<Rightarrow> (s, Inl e)
      | Inr items \<Rightarrow>
          (let s = s\<lparr>depsUpdateItems := items\<rparr>;
               s = updateFutureVersion env opts s
           in case updateAllDeps env s of
                (s, Some e) \<Rightarrow> (s, Inl e)
              | (s, None) \<Rightarrow>
                  (let s = addLogToComponents env opts s;
                       s = addFlattenedDependenciesToComponents env s;
                       s = addBuildStatus s;
                       s = addComponentsToScope s;
                       s = updateComponents env s
                   in case tagListener env (components s) True True of
                        Inl e \<Rightarrow> (s, Inl e)
                      | Inr (builderDataMap, pipeResults) \<Rightarrow>
                          (let legacyBuildResults = builderDataMapToLegacyOnTagResults env builderDataMap;
                               s = updateComponentsByTagResult env legacyBuildResults s;
                               published = getPublishedPackages env (legacyComponents s);
                               pipeWithError = find (hasErrors env) pipeResults;
                               status = (if pipeWithError \<noteq> None then Failed else Succeed);
                               s = saveDataIntoLocalScope status s;
                               s = (if flag (multiple opts) then export s else clearScopesCaches env s)
                           in (s, Inr \<lparr>res_depsUpdateItems = depsUpdateItems s,
                                       publishedPackages = published,
                                       error = map_option (getErrorMessageFormatted env) pipeWithError\<rparr>)))))"

subsection \<open>Stages of the workflow\<close>

text \<open>
  Names for the states the workflow passes through: \<open>planned\<close> is the state handed to
  \<^verbatim>\<open>updateAllDeps\<close> once the raw items are parsed into \<open>items\<close>; \<open>staged\<close> is the state
  handed to the builder once the rewriting has left \<open>s\<close>; \<open>finalStatus\<close> is the build
  status computed from the pipeline results.
\<close>

definition planned ::
  "('x, 'k, 'p, 'b, 'r) env \<Rightarrow> UpdateDepsOptions \<Rightarrow> DepUpdateItemRaw list \<Rightarrow> 'x state \<Rightarrow>
   'x DepUpdateItem list \<Rightarrow> 'x state" where
  "planned env opts depsUpdateItemsRaw s0 items =
     updateFutureVersion env opts ((importAllMissing env opts depsUpdateItemsRaw s0)\<lparr>depsUpdateItems := items\<rparr>)"

definition staged :: "('x, 'k, 'p, 'b, 'r) env \<Rightarrow> UpdateDepsOptions \<Rightarrow> 'x state \<Rightarrow> 'x state" where
  "staged env opts s =
     updateComponents env (addComponentsToScope (addBuildStatus
       (addFlattenedDependenciesToComponents env (addLogToComponents env opts s))))"

definition finalStatus :: "('x, 'k, 'p, 'b, 'r) env \<Rightarrow> 'p list \<Rightarrow> BuildStatus" where
  "finalStatus env pipeResults = (if find (hasErrors env) pipeResults \<noteq> None then Failed else Succeed)"

subsection \<open>A sample scope\<close>

text \<open>
  A small scope to run the workflow on. Identifiers are written \<open>scope/name@version\<close>.
  The scope holds \<open>s/a\<close> (with a runtime edge and an extension reference on \<open>s/b\<close> and a
  development edge on \<open>s/c\<close>), \<open>s/b\<close> and \<open>s/d\<close> (with an edge on \<open>s/b\<close> that the dependency
  resolver knows no package name for). The history of \<open>s/b\<close> is 1.0.0, 1.2.0, 2.0.0. The
  builder returns its pipeline results, with an error in the second one when \<open>s/b\<close> is
  among the components.
\<close>

definition mkId :: "string \<Rightarrow> string \<Rightarrow> string option \<Rightarrow> BitId" where
  "mkId sc n v = \<lparr>scope = Some sc, name = n, version = v\<rparr>"

definition sample_fromString :: "string \<Rightarrow> ComponentID" where
  "sample_fromString str =
     (let rest = drop 1 (dropWhile (\<lambda>c. c \<noteq> CHR ''/'') str) in
      ComponentID
        (mkId (takeWhile (\<lambda>c. c \<noteq> CHR ''/'') str)
              (takeWhile (\<lambda>c. c \<noteq> CHR ''@'') rest)
              (case dropWhile (\<lambda>c. c \<noteq> CHR ''@'') rest of [] \<Rightarrow> None | _ # v \<Rightarrow> Some v)))"

definition sample_bidToString :: "BitId \<Rightarrow> string" where
  "sample_bidToString b =
     (case scope b of None \<Rightarrow> [] | Some sc \<Rightarrow> sc @ ''/'') @ name b
     @ (case version b of None \<Rightarrow> [] | Some v \<Rightarrow> ''@'' @ v)"

definition sample_resolverId :: string where
  "sample_resolverId = ''teambit.dependencies/dependency-resolver''"

definition compB :: "string Component" where
  "compB =
     \<lparr>comp_id = ComponentID (mkId ''s'' ''b'' (Some ''2.0.0'')),
      state_consumer =
        \<lparr>c_scope = Some ''s'', c_name = ''b'', c_version = Some ''2.0.0'',
         dependencies = [], devDependencies = [], extensions = [],
         buildStatus = None, log = None\<rparr>\<rparr>"

definition compA :: "string Component" where
  "compA =
     \<lparr>comp_id = ComponentID (mkId ''s'' ''a'' (Some ''0.0.1'')),
      state_consumer =
        \<lparr>c_scope = Some ''s'', c_name = ''a'', c_version = Some ''0.0.1'',
         dependencies = [\<lparr>dep_id = mkId ''s'' ''b'' (Some ''1.0.0''), packageName = Some ''@s/b-old''\<rparr>],
         devDependencies = [\<lparr>dep_id = mkId ''s'' ''c'' (Some ''1.0.0''), packageName = Some ''@s/c''\<rparr>],
         extensions =
           [\<lparr>legacyId = None, extensionId = Some (mkId ''s'' ''b'' (Some ''1.0.0'')),
             ext_name = None, config = None, data = [(''x'', ''1'')]\<rparr>,
            \<lparr>legacyId = None, extensionId = None,
             ext_name = Some sample_resolverId, config = None,
             data = [(''policy'', ''p''), (''dependencies'', ''old'')]\<rparr>],
         buildStatus = None, log = None\<rparr>\<rparr>"

definition compD :: "string Component" where
  "compD =
     \<lparr>comp_id = ComponentID (mkId ''s'' ''d'' (Some ''0.0.1'')),
      state_consumer =
        \<lparr>c_scope = Some ''s'', c_name = ''d'', c_version = Some ''0.0.1'',
         dependencies = [\<lparr>dep_id = mkId ''s'' ''b'' (Some ''1.0.0''), packageName = None\<rparr>],
         devDependencies = [], extensions = [],
         buildStatus = None, log = None\<rparr>\<rparr>"

definition sample_get :: "ComponentID \<Rightarrow> string Component option" where
  "sample_get i =
     (let n = name (legacy i) in
      if n = ''a'' then Some compA else if n = ''b'' then Some compB
      else if n = ''d'' then Some compD else None)"

definition sample_versions :: "ComponentID \<Rightarrow> string list" where
  "sample_versions i = (if name (legacy i) = ''b'' then [''1.0.0'', ''1.2.0'', ''2.0.0''] else [])"

definition sample_satisfies :: "string \<Rightarrow> string \<Rightarrow> bool" where
  "sample_satisfies v rng =
     (rng = ''*'' \<or> rng = v \<or> (rng = ''^1.0.0'' \<and> (v = ''1.0.0'' \<or> v = ''1.2.0'')))"

definition sample_key :: "string \<Rightarrow> nat" where
  "sample_key v =
     (if v = ''1.0.0'' then 100 else if v = ''1.2.0'' then 120 else if v = ''2.0.0'' then 200 else 0)"

definition sample_releaseType :: "string \<Rightarrow> VersionOrReleaseType" where
  "sample_releaseType str =
     (if str = ''patch'' \<or> str = ''minor'' \<or> str = ''major''
      then \<lparr>releaseType = Some str, exactVersion = None\<rparr>
      else \<lparr>releaseType = None, exactVersion = Some str\<rparr>)"

definition sample_versionToAdd :: "BitId \<Rightarrow> string option \<Rightarrow> string option \<Rightarrow> string" where
  "sample_versionToAdd i rt ev =
     (case ev of Some v \<Rightarrow> v | None \<Rightarrow> if name i = ''b'' then ''3.0.0'' else ''0.0.2'')"

definition sample_packageName :: "string Component \<Rightarrow> string \<Rightarrow> string option" where
  "sample_packageName c depIdStr =
     (if name (legacy (comp_id c)) = ''d'' then None
      else if depIdStr = ''s/b@1.0.0'' then Some ''@s/b'' else None)"

definition sample_tagListener ::
  "string Component list \<Rightarrow> bool \<Rightarrow> bool \<Rightarrow> exn + unit \<times> string option list" where
  "sample_tagListener cs throwOnError seedersOnly =
     Inr ((), [None, if ''b'' \<in> set (map (\<lambda>c. c_name (state_consumer c)) cs)
                     then Some ''tester failed'' else None])"

definition sample_env :: "(string, nat, string option, unit, unit) env" where
  "sample_env =
     \<lparr>fromString = sample_fromString,
      cidToString = (\<lambda>i. sample_bidToString (legacy i)),
      bidToString = sample_bidToString,
      scope_get = sample_get,
      listVersions = sample_versions,
      satisfies = sample_satisfies,
      versionKey = sample_key,
      getValidVersionOrReleaseType = sample_releaseType,
      getVersionToAdd = sample_versionToAdd,
      getSnapToAdd = (\<lambda>i. ''snap-of-'' @ name i),
      findPackageName = sample_packageName,
      extractDepsFromLegacy = (\<lambda>c. ''new''),
      depResolverId = sample_resolverId,
      addFlattenedDependencies = (\<lambda>cs c. c),
      getFromConsumerComponent = (\<lambda>c. \<lparr>comp_id = ComponentID (c_id c), state_consumer = c\<rparr>),
      tagListener = sample_tagListener,
      builderDataMapToLegacyOnTagResults = (\<lambda>b. ()),
      updateComponentByTagResult = (\<lambda>r c. c),
      getPublishedPackages = map c_name,
      hasErrors = (\<lambda>p. p \<noteq> None),
      getErrorMessageFormatted = (\<lambda>p. case p of None \<Rightarrow> [] | Some m \<Rightarrow> m),
      date_now = (\<lambda>n. ''now'')\<rparr>"

definition sample_options :: "bool option \<Rightarrow> bool option \<Rightarrow> UpdateDepsOptions" where
  "sample_options t m =
     \<lparr>tag = t, snap = None, opt_output = None, multiple = m,
      opt_message = None, opt_username = None, opt_email = None\<rparr>"

definition raw_item :: "string \<Rightarrow> string list \<Rightarrow> DepUpdateItemRaw" where
  "raw_item i deps = \<lparr>componentId = i, raw_dependencies = deps, raw_versionToTag = None\<rparr>"

definition empty_state :: "string state" where
  "empty_state = \<lparr>depsUpdateItems = [], trace = []\<rparr>"

text \<open>The batch of \<open>s/a\<close>, \<open>s/d\<close> and \<open>s/b\<close>, as parsed, with no dependencies asked for.\<close>

definition sample_batch :: "string state" where
  "sample_batch =
     \<lparr>depsUpdateItems =
        [\<lparr>component = compA, item_dependencies = [], versionToTag = None\<rparr>,
         \<lparr>component = compD, item_dependencies = [], versionToTag = None\<rparr>,
         \<lparr>component = compB, item_dependencies = [], versionToTag = None\<rparr>],
      trace = []\<rparr>"

section \<open>Properties\<close>

subsection \<open>The rewriting of one component\<close>

lemma searchWithoutVersion_same:
  "searchWithoutVersion ids b = Some u \<Longrightarrow> name u = name b \<and> scope u = scope b"
  by (auto simp: searchWithoutVersion_def isEqualWithoutVersion_def dest: find_Some_iff[THEN iffD1])

lemma updateDeps_length:
  "length (fst (updateDeps t p s ids deps)) = length deps"
  by (induction deps) (auto split: option.splits prod.splits simp: Let_def)

lemma updateDeps_unmatched:
  "i < length deps \<Longrightarrow> searchWithoutVersion ids (dep_id (deps ! i)) = None \<Longrightarrow>
   fst (updateDeps t p s ids deps) ! i = deps ! i"
proof (induction deps arbitrary: i)
  case Nil
  then show ?case by simp
next
  case (Cons d ds)
  show ?case
  proof (cases i)
    case 0
    with Cons.prems show ?thesis by (simp split: prod.splits)
  next
    case (Suc j)
    with Cons.prems have "fst (updateDeps t p s ids ds) ! j = ds ! j"
      by (intro Cons.IH) simp_all
    with Suc show ?thesis
      by (auto simp: Let_def split: option.splits prod.splits)
  qed
qed

lemma updateDeps_matched:
  "i < length deps \<Longrightarrow> searchWithoutVersion ids (dep_id (deps ! i)) = Some u \<Longrightarrow>
   snd (updateDeps t p s ids deps) = None \<Longrightarrow>
   fst (updateDeps t p s ids deps) ! i = (deps ! i)\<lparr>dep_id := u, packageName := p (t (dep_id (deps ! i)))\<rparr>
   \<and> truthy (p (t (dep_id (deps ! i))))"
proof (induction deps arbitrary: i)
  case Nil
  then show ?case by simp
next
  case (Cons d ds)
  from Cons.prems(3) have tl: "snd (updateDeps t p s ids ds) = None"
    by (simp add: Let_def split: option.splits prod.splits if_splits)
  show ?case
  proof (cases i)
    case 0
    with Cons.prems show ?thesis by (simp add: Let_def split: prod.splits if_splits)
  next
    case (Suc j)
    with Cons.prems tl
    have "fst (updateDeps t p s ids ds) ! j = (ds ! j)\<lparr>dep_id := u, packageName := p (t (dep_id (ds ! j)))\<rparr>
      \<and> truthy (p (t (dep_id (ds ! j))))"
      by (intro Cons.IH) simp_all
    with Suc Cons.prems(3) show ?thesis
      by (auto simp: Let_def split: option.splits prod.splits if_splits)
  qed
qed

lemma updateDeps_targets:
  "map (\<lambda>d. (scope (dep_id d), name (dep_id d))) (fst (updateDeps t p s ids deps))
   = map (\<lambda>d. (scope (dep_id d), name (dep_id d))) deps"
  by (induction deps)
     (auto split: option.splits prod.splits simp: Let_def dest: searchWithoutVersion_same)


lemma updateExtension_unmatched:
  "(\<forall>u. extensionId ext = Some u \<longrightarrow> searchWithoutVersion ids u = None) \<Longrightarrow>
   updateExtension ids ext = ext"
  by (auto simp: updateExtension_def split: option.splits)

text \<open>
  Claim C5. Rewriting one component changes only its dependency edges and extension
  references, and among them only those whose target is found in the lookup set by
  scope and name: the component is otherwise the same, the three lists keep their
  lengths, every edge keeps its target's scope and name, and every edge or extension
  reference that is not found is the same object as before, with its version and
  package name. This holds also when the rewriting throws.
\<close>

theorem rewrite_changes_only_matching_edges:
  assumes run: "updateDependenciesVersionsOfComponent env c ds cur = (c', e)"
  shows "c' = c\<lparr>state_consumer := (state_consumer c)
                 \<lparr>dependencies := dependencies (state_consumer c'),
                  devDependencies := devDependencies (state_consumer c'),
                  extensions := extensions (state_consumer c')\<rparr>\<rparr>
       \<and> length (dependencies (state_consumer c')) = length (dependencies (state_consumer c))
       \<and> length (devDependencies (state_consumer c')) = length (devDependencies (state_consumer c))
       \<and> length (extensions (state_consumer c')) = length (extensions (state_consumer c))
       \<and> map (\<lambda>d. (scope (dep_id d), name (dep_id d))) (dependencies (state_consumer c'))
           = map (\<lambda>d. (scope (dep_id d), name (dep_id d))) (dependencies (state_consumer c))
       \<and> map (\<lambda>d. (scope (dep_id d), name (dep_id d))) (devDependencies (state_consumer c'))
           = map (\<lambda>d. (scope (dep_id d), name (dep_id d))) (devDependencies (state_consumer c))
       \<and> (\<forall>i < length (dependencies (state_consumer c)).
             searchWithoutVersion (cur @ map legacy ds) (dep_id (dependencies (state_consumer c) ! i)) = None
             \<longrightarrow> dependencies (state_consumer c') ! i = dependencies (state_consumer c) ! i)
       \<and> (\<forall>i < length (devDependencies (state_consumer c)).
             searchWithoutVersion (cur @ map legacy ds) (dep_id (devDependencies (state_consumer c) ! i)) = None
             \<longrightarrow> devDependencies (state_consumer c') ! i = devDependencies (state_consumer c) ! i)
       \<and> (\<forall>i < length (extensions (state_consumer c)).
             (\<forall>u. extensionId (extensions (state_consumer c) ! i) = Some u
                  \<longrightarrow> searchWithoutVersion (cur @ map legacy ds) u = None)
             \<longrightarrow> extensions (state_consumer c') ! i = extensions (state_consumer c) ! i)"
proof -
  define ids where "ids = cur @ map legacy ds"
  define D where "D = dependencies (state_consumer c)"
  define V where "V = devDependencies (state_consumer c)"
  define E where "E = extensions (state_consumer c)"
  define r where "r = updateDeps (bidToString env) (findPackageName env c) (cidToString env (comp_id c)) ids (D @ V)"
  have len: "length (fst r) = length D + length V"
    by (simp add: r_def updateDeps_length)
  have tg: "map (\<lambda>d. (scope (dep_id d), name (dep_id d))) (fst r)
            = map (\<lambda>d. (scope (dep_id d), name (dep_id d))) (D @ V)"
    unfolding r_def by (rule updateDeps_targets)
  have un: "fst r ! i = (D @ V) ! i"
    if "i < length (D @ V)" "searchWithoutVersion ids (dep_id ((D @ V) ! i)) = None" for i
    unfolding r_def using that by (rule updateDeps_unmatched)
  have c': "c' = c\<lparr>state_consumer := (state_consumer c)
                \<lparr>dependencies := take (length D) (fst r), devDependencies := drop (length D) (fst r),
                 extensions := (if snd r = None then map (updateExtension ids) E else E)\<rparr>\<rparr>"
    using run
    by (auto simp: updateDependenciesVersionsOfComponent_def Let_def r_def ids_def D_def V_def E_def
             split: prod.splits option.splits)
  have dD: "dependencies (state_consumer c') = take (length D) (fst r)"
    and dV: "devDependencies (state_consumer c') = drop (length D) (fst r)"
    and dE: "extensions (state_consumer c') = (if snd r = None then map (updateExtension ids) E else E)"
    by (simp_all add: c')
  have p1: "c' = c\<lparr>state_consumer := (state_consumer c)
                 \<lparr>dependencies := dependencies (state_consumer c'),
                  devDependencies := devDependencies (state_consumer c'),
                  extensions := extensions (state_consumer c')\<rparr>\<rparr>"
    unfolding dD dV dE by (rule c')
  have p2: "length (dependencies (state_consumer c')) = length D"
    by (simp add: dD len)
  have p3: "length (devDependencies (state_consumer c')) = length V"
    by (simp add: dV len)
  have p4: "length (extensions (state_consumer c')) = length E"
    by (simp add: dE)
  have "map (\<lambda>d. (scope (dep_id d), name (dep_id d))) (take (length D) (fst r))
        = take (length D) (map (\<lambda>d. (scope (dep_id d), name (dep_id d))) (fst r))"
    by (simp add: take_map)
  also have "\<dots> = take (length D) (map (\<lambda>d. (scope (dep_id d), name (dep_id d))) (D @ V))"
    by (simp only: tg)
  also have "\<dots> = map (\<lambda>d. (scope (dep_id d), name (dep_id d))) D"
    by simp
  finally have p5: "map (\<lambda>d. (scope (dep_id d), name (dep_id d))) (dependencies (state_consumer c'))
        = map (\<lambda>d. (scope (dep_id d), name (dep_id d))) D"
    by (simp only: dD)
  have "map (\<lambda>d. (scope (dep_id d), name (dep_id d))) (drop (length D) (fst r))
        = drop (length D) (map (\<lambda>d. (scope (dep_id d), name (dep_id d))) (fst r))"
    by (simp add: drop_map)
  also have "\<dots> = drop (length D) (map (\<lambda>d. (scope (dep_id d), name (dep_id d))) (D @ V))"
    by (simp only: tg)
  also have "\<dots> = map (\<lambda>d. (scope (dep_id d), name (dep_id d))) V"
    by simp
  finally have p6: "map (\<lambda>d. (scope (dep_id d), name (dep_id d))) (devDependencies (state_consumer c'))
        = map (\<lambda>d. (scope (dep_id d), name (dep_id d))) V"
    by (simp only: dV)
  have p7: "dependencies (state_consumer c') ! i = D ! i"
    if "i < length D" "searchWithoutVersion ids (dep_id (D ! i)) = None" for i
    using that un[of i] by (simp add: dD nth_append)
  have p8: "devDependencies (state_consumer c') ! i = V ! i"
    if "i < length V" "searchWithoutVersion ids (dep_id (V ! i)) = None" for i
    using that un[of "length D + i"] len by (simp add: dV nth_append)
  have p9: "extensions (state_consumer c') ! i = E ! i"
    if "i < length E" "\<forall>u. extensionId (E ! i) = Some u \<longrightarrow> searchWithoutVersion ids u = None" for i
    using that by (simp add: dE updateExtension_unmatched)
  show ?thesis
    using p1 p2 p3 p4 p5 p6 p7 p8 p9
    unfolding ids_def D_def V_def E_def by blast
qed


theorem rewrite_changes_only_matching_edges_witness:
  "devDependencies (state_consumer (fst (updateDependenciesVersionsOfComponent sample_env compA []
      [legacy (comp_id compA), legacy (comp_id compB)]))) ! 0
   = \<lparr>dep_id = mkId ''s'' ''c'' (Some ''1.0.0''), packageName = Some ''@s/c''\<rparr>
   \<and> length (dependencies (state_consumer (fst (updateDependenciesVersionsOfComponent sample_env compA []
      [legacy (comp_id compA), legacy (comp_id compB)])))) = 1
   \<and> snd (updateDependenciesVersionsOfComponent sample_env compA []
      [legacy (comp_id compA), legacy (comp_id compB)]) = None"
proof -
  let ?ids = "[legacy (comp_id compA), legacy (comp_id compB)]"
  let ?r = "updateDependenciesVersionsOfComponent sample_env compA [] ?ids"
  have un: "searchWithoutVersion (?ids @ map legacy []) (dep_id (devDependencies (state_consumer compA) ! 0)) = None"
    by (simp add: searchWithoutVersion_def isEqualWithoutVersion_def compA_def compB_def mkId_def)
  have ok: "snd ?r = None"
    by (simp add: updateDependenciesVersionsOfComponent_def searchWithoutVersion_def
        isEqualWithoutVersion_def compA_def compB_def mkId_def sample_env_def Let_def
        sample_packageName_def sample_bidToString_def truthy_def)
  have "?r = (fst ?r, snd ?r)" by simp
  from rewrite_changes_only_matching_edges[OF this] un ok
  show ?thesis by (simp add: compA_def)
qed

subsection \<open>The dependency-resolver data\<close>

lemma updateFirst_find:
  "find P xs = Some x \<Longrightarrow> \<exists>i<length xs. xs ! i = x \<and> updateFirst P f xs = xs[i := f x]"
proof (induction xs)
  case Nil
  then show ?case by simp
next
  case (Cons y ys)
  show ?case
  proof (cases "P y")
    case True
    with Cons.prems have "y = x" by simp
    with True show ?thesis by (intro exI[of _ 0]) simp
  next
    case False
    with Cons.prems have "find P ys = Some x" by simp
    from Cons.IH[OF this] obtain i where "i < length ys" "ys ! i = x" "updateFirst P f ys = ys[i := f x]"
      by blast
    with False show ?thesis by (intro exI[of _ "Suc i"]) simp
  qed
qed

text \<open>
  Claim C9. The metadata update changes nothing of a component but its extension
  records. When the component has a dependency-resolver record, the first such record
  is the only one changed, and only in its data: there the field \<open>dependencies\<close> holds
  the freshly extracted records and every other top-level field is as before. When it
  has none, a new record with that data is appended.
\<close>

theorem resolver_data_merged_at_top_level:
  "let exts = extensions (state_consumer c);
       c' = updateDependencyResolver env c;
       exts' = extensions (state_consumer c');
       deps = extractDepsFromLegacy env c
   in c' = c\<lparr>state_consumer := (state_consumer c)\<lparr>extensions := exts'\<rparr>\<rparr>
      \<and> (case findExtension env exts (depResolverId env) of
            None \<Rightarrow>
              exts' = exts @ [\<lparr>legacyId = None, extensionId = None, ext_name = Some (depResolverId env),
                               config = None, data = [(''dependencies'', deps)]\<rparr>]
          | Some ex \<Rightarrow>
              (\<exists>i<length exts. exts ! i = ex
                 \<and> exts' = exts[i := ex\<lparr>data := data (exts' ! i)\<rparr>]
                 \<and> map_of (data (exts' ! i)) ''dependencies'' = Some deps
                 \<and> (\<forall>k. k \<noteq> ''dependencies'' \<longrightarrow> map_of (data (exts' ! i)) k = map_of (data ex) k)))"
proof (cases "findExtension env (extensions (state_consumer c)) (depResolverId env)")
  case None
  then show ?thesis by (simp add: updateDependencyResolver_def Let_def)
next
  case (Some ex)
  let ?exts = "extensions (state_consumer c)"
  let ?deps = "extractDepsFromLegacy env c"
  from Some have "find (isExtension env (depResolverId env)) ?exts = Some ex"
    by (simp add: findExtension_def)
  from updateFirst_find[OF this, of "assignDependencies ?deps"]
  obtain i where i: "i < length ?exts" "?exts ! i = ex"
    "updateFirst (isExtension env (depResolverId env)) (assignDependencies ?deps) ?exts
     = ?exts[i := assignDependencies ?deps ex]"
    by blast
  have e': "extensions (state_consumer (updateDependencyResolver env c)) = ?exts[i := assignDependencies ?deps ex]"
    using Some i(3) by (simp add: updateDependencyResolver_def Let_def)
  have d: "data (extensions (state_consumer (updateDependencyResolver env c)) ! i)
           = AList.update ''dependencies'' ?deps (data ex)"
    using i(1) by (simp add: e' assignDependencies_def)
  have "updateDependencyResolver env c
        = c\<lparr>state_consumer := (state_consumer c)\<lparr>extensions := extensions (state_consumer (updateDependencyResolver env c))\<rparr>\<rparr>"
    using Some i(3) by (simp add: updateDependencyResolver_def Let_def)
  moreover have "?exts[i := assignDependencies ?deps ex]
        = ?exts[i := ex\<lparr>data := AList.update ''dependencies'' ?deps (data ex)\<rparr>]"
    by (simp add: assignDependencies_def)
  moreover have "map_of (AList.update ''dependencies'' ?deps (data ex)) ''dependencies'' = Some ?deps"
    by (simp add: update_conv')
  moreover have "\<forall>k. k \<noteq> ''dependencies'' \<longrightarrow>
      map_of (AList.update ''dependencies'' ?deps (data ex)) k = map_of (data ex) k"
    by (simp add: update_conv')
  ultimately show ?thesis
    using Some i(1,2) e' d by (auto simp: Let_def)
qed


theorem resolver_data_merged_at_top_level_witness:
  "map_of (data (extensions (state_consumer (updateDependencyResolver sample_env compA)) ! 1)) ''policy''
     = Some ''p''
   \<and> map_of (data (extensions (state_consumer (updateDependencyResolver sample_env compA)) ! 1)) ''dependencies''
     = Some ''new''
   \<and> length (extensions (state_consumer (updateDependencyResolver sample_env compA))) = 2
   \<and> extensions (state_consumer (updateDependencyResolver sample_env compB))
     = [\<lparr>legacyId = None, extensionId = None, ext_name = Some sample_resolverId,
         config = None, data = [(''dependencies'', ''new'')]\<rparr>]"
proof -
  have fA: "findExtension sample_env (extensions (state_consumer compA)) (depResolverId sample_env)
            = Some (extensions (state_consumer compA) ! 1)"
    by (simp add: findExtension_def isExtension_def stringId_def compA_def sample_env_def
        sample_resolverId_def sample_bidToString_def mkId_def)
  have fB: "findExtension sample_env (extensions (state_consumer compB)) (depResolverId sample_env) = None"
    by (simp add: findExtension_def compB_def)
  have n0: "extensions (state_consumer compA) ! 0 \<noteq> extensions (state_consumer compA) ! 1"
    by (simp add: compA_def)
  from resolver_data_merged_at_top_level[of compA sample_env] fA
  obtain i where i: "i < length (extensions (state_consumer compA))"
    "extensions (state_consumer compA) ! i = extensions (state_consumer compA) ! 1"
    "extensions (state_consumer (updateDependencyResolver sample_env compA))
       = (extensions (state_consumer compA))[i := (extensions (state_consumer compA) ! 1)
           \<lparr>data := data (extensions (state_consumer (updateDependencyResolver sample_env compA)) ! i)\<rparr>]"
    "map_of (data (extensions (state_consumer (updateDependencyResolver sample_env compA)) ! i)) ''dependencies''
       = Some (extractDepsFromLegacy sample_env compA)"
    "\<forall>k. k \<noteq> ''dependencies'' \<longrightarrow>
       map_of (data (extensions (state_consumer (updateDependencyResolver sample_env compA)) ! i)) k
       = map_of (data (extensions (state_consumer compA) ! 1)) k"
    by (auto simp: Let_def)
  have len: "length (extensions (state_consumer compA)) = 2"
    by (simp add: compA_def)
  from i(1,2) n0 len have i1: "i = 1"
    by (cases i) auto
  have l2: "length (extensions (state_consumer (updateDependencyResolver sample_env compA))) = 2"
    by (subst i(3)) (simp add: len)
  have p: "map_of (data (extensions (state_consumer compA) ! 1)) ''policy'' = Some ''p''"
    by (simp add: compA_def)
  have "''policy'' \<noteq> ''dependencies''" by simp
  with i(5) p i1
  have a: "map_of (data (extensions (state_consumer (updateDependencyResolver sample_env compA)) ! 1)) ''policy''
     = Some ''p''" by simp
  from i(4) i1
  have b: "map_of (data (extensions (state_consumer (updateDependencyResolver sample_env compA)) ! 1)) ''dependencies''
     = Some ''new''" by (simp add: sample_env_def)
  from resolver_data_merged_at_top_level[of compB sample_env] fB
  have c: "extensions (state_consumer (updateDependencyResolver sample_env compB))
     = [\<lparr>legacyId = None, extensionId = None, ext_name = Some sample_resolverId,
         config = None, data = [(''dependencies'', ''new'')]\<rparr>]"
    by (simp add: Let_def compB_def sample_env_def)
  from a b l2 c show ?thesis by simp
qed

subsection \<open>The import step\<close>

lemma importAllMissing_trace:
  "importAllMissing env opts raw s =
     s\<lparr>trace := trace s @
        [ScopeImport
          (concat (map (\<lambda>item. map (\<lambda>dep. changeVersion (fromString env dep) (Some LATEST))
                                     (raw_dependencies item)) raw)
           @ (if flag (multiple opts) then map (\<lambda>d. fromString env (componentId d)) raw else []))
          False]\<rparr>"
  by (simp add: importAllMissing_def Let_def comp_def)

lemma cid_version_changeVersion: "cid_version (changeVersion i v) = v"
  by (simp add: cid_version_def changeVersion_def)

text \<open>
  Claim C7. The import step is one call of the store with the cache flag off. The
  identifiers it imports contain every dependency of every raw item at the version
  \<open>LATEST\<close>, whatever range was asked for, and they contain the root identifiers when
  \<open>multiple\<close> is set; when it is not set they are the dependencies at \<open>LATEST\<close> and
  nothing else.
\<close>

theorem import_latest_without_cache:
  "\<exists>ids. importAllMissing env opts raw s = s\<lparr>trace := trace s @ [ScopeImport ids False]\<rparr>
     \<and> (\<forall>item \<in> set raw. \<forall>dep \<in> set (raw_dependencies item).
           changeVersion (fromString env dep) (Some LATEST) \<in> set ids)
     \<and> (flag (multiple opts) \<longrightarrow> (\<forall>item \<in> set raw. fromString env (componentId item) \<in> set ids))
     \<and> (\<not> flag (multiple opts) \<longrightarrow>
           ids = concat (map (\<lambda>item. map (\<lambda>dep. changeVersion (fromString env dep) (Some LATEST))
                                          (raw_dependencies item)) raw)
           \<and> (\<forall>i \<in> set ids. cid_version i = Some LATEST))
     \<and> (\<forall>i \<in> set ids.
           (\<exists>item \<in> set raw. \<exists>dep \<in> set (raw_dependencies item).
               i = changeVersion (fromString env dep) (Some LATEST))
           \<or> (flag (multiple opts) \<and> (\<exists>item \<in> set raw. i = fromString env (componentId item))))"
  unfolding importAllMissing_trace
  by (rule exI, rule conjI, rule refl) (auto simp: cid_version_changeVersion)


theorem import_latest_without_cache_witness:
  "importAllMissing sample_env (sample_options (Some True) None)
     [raw_item ''s/a'' [''s/b@^1.0.0''], raw_item ''s/b'' []] empty_state
   = \<lparr>depsUpdateItems = [], trace = [ScopeImport [ComponentID (mkId ''s'' ''b'' (Some ''latest''))] False]\<rparr>"
proof -
  let ?raw = "[raw_item ''s/a'' [''s/b@^1.0.0''], raw_item ''s/b'' []]"
  let ?opts = "sample_options (Some True) None"
  from import_latest_without_cache[of sample_env ?opts ?raw empty_state]
  obtain ids where ids:
    "importAllMissing sample_env ?opts ?raw empty_state
       = empty_state\<lparr>trace := trace empty_state @ [ScopeImport ids False]\<rparr>"
    "\<not> flag (multiple ?opts) \<longrightarrow>
       ids = concat (map (\<lambda>item. map (\<lambda>dep. changeVersion (fromString sample_env dep) (Some LATEST))
                                      (raw_dependencies item)) ?raw)"
    by blast
  have "\<not> flag (multiple ?opts)"
    by (simp add: flag_def sample_options_def)
  with ids(2) have "ids = [ComponentID (mkId ''s'' ''b'' (Some ''latest''))]"
    by (simp add: raw_item_def sample_env_def sample_fromString_def changeVersion_def mkId_def LATEST_def)
  with ids(1) show ?thesis
    by (simp add: empty_state_def)
qed

subsection \<open>Resolving a dependency spec\<close>

lemma fold_higher:
  "fold (higher key) xs acc = r \<Longrightarrow>
   (case r of
      None \<Rightarrow> acc = None \<and> xs = []
    | Some v \<Rightarrow> (v \<in> set xs \<or> acc = Some v) \<and> (\<forall>x \<in> set xs. key x \<le> key v)
                \<and> (\<forall>a. acc = Some a \<longrightarrow> key a \<le> key v))"
proof (induction xs arbitrary: acc r)
  case Nil
  then show ?case by (auto split: option.splits)
next
  case (Cons x xs)
  from Cons.prems have "fold (higher key) xs (higher key x acc) = r" by simp
  from Cons.IH[OF this] show ?case
    by (cases r; cases acc) (auto simp: higher_def split: if_splits)
qed

lemma maxSatisfying_None: "maxSatisfying key ok vs = None \<longleftrightarrow> (\<forall>v \<in> set vs. \<not> ok v)"
proof
  assume "maxSatisfying key ok vs = None"
  from fold_higher[OF this[unfolded maxSatisfying_def]] have "filter ok vs = []" by simp
  then show "\<forall>v \<in> set vs. \<not> ok v" by (simp add: filter_empty_conv)
next
  assume "\<forall>v \<in> set vs. \<not> ok v"
  then have "filter ok vs = []" by (simp add: filter_empty_conv)
  then show "maxSatisfying key ok vs = None" by (simp add: maxSatisfying_def)
qed

lemma maxSatisfying_Some:
  "maxSatisfying key ok vs = Some v \<Longrightarrow>
   v \<in> set vs \<and> ok v \<and> (\<forall>w \<in> set vs. ok w \<longrightarrow> key w \<le> key v)"
  using fold_higher[of key "filter ok vs" None "Some v"]
  by (auto simp: maxSatisfying_def)

lemma mapSeries_Inl:
  "x \<in> set xs \<Longrightarrow> f x = Inl e \<Longrightarrow> \<exists>e'. mapSeries f xs = Inl e'"
  by (induction xs) (auto split: sum.splits)

lemma workflow_parse_error:
  "parseDevUpdatesItems env raw = Inl e \<Longrightarrow>
   updateDependenciesVersions env raw opts s0 = (importAllMissing env opts raw s0, Inl e)"
  by (simp add: updateDependenciesVersions_def Let_def)

text \<open>
  Claim C3. A dependency spec with no version is resolved with the range \<open>*\<close>. When no
  known version of the component satisfies the range, the resolution throws, and a
  batch with that spec in it is aborted in the parse step. When the resolution returns,
  the identifier carries a known version that satisfies the range and that no known
  satisfying version exceeds; and it does return when some known version satisfies the
  range (and the empty string is not a known version).
\<close>

theorem dependency_resolved_to_highest_satisfying:
  "let compId = fromString env depStr;
       rng = or_default (cid_version compId) ''*'';
       known = listVersions env (changeVersion compId None);
       r = getDependencyWithExactVersion env depStr
   in (cid_version compId = None \<longrightarrow> rng = ''*'')
      \<and> ((\<forall>v \<in> set known. \<not> satisfies env v rng) \<longrightarrow>
           (\<exists>msg. r = Inl (Error msg))
           \<and> (\<forall>item \<in> set raw. depStr \<in> set (raw_dependencies item) \<longrightarrow>
                (\<exists>e. updateDependenciesVersions env raw opts s0 = (importAllMissing env opts raw s0, Inl e))))
      \<and> (\<forall>i. r = Inr i \<longrightarrow>
            (\<exists>v. i = changeVersion compId (Some v) \<and> v \<in> set known \<and> satisfies env v rng
                 \<and> (\<forall>w \<in> set known. satisfies env w rng \<longrightarrow> versionKey env w \<le> versionKey env v)))
      \<and> ((\<exists>v \<in> set known. satisfies env v rng) \<and> [] \<notin> set known \<longrightarrow> (\<exists>i. r = Inr i))"
proof -
  define compId where "compId = fromString env depStr"
  define rng where "rng = or_default (cid_version compId) ''*''"
  define known where "known = listVersions env (changeVersion compId None)"
  define m where "m = maxSatisfying (versionKey env) (\<lambda>v. satisfies env v rng) known"
  define r where "r = getDependencyWithExactVersion env depStr"
  have r: "r = (if \<not> truthy m
                then Inl (Error (''unable to find a version that satisfies '' @ dquote @ rng @ dquote
                                 @ '' of '' @ dquote @ depStr @ dquote))
                else Inr (changeVersion compId m))"
    by (simp add: r_def getDependencyWithExactVersion_def Let_def getExactVersionBySemverRange_def
        m_def known_def rng_def compId_def)
  have p1: "cid_version compId = None \<longrightarrow> rng = ''*''"
    by (simp add: rng_def or_default_def)
  have p2a: "\<exists>msg. r = Inl (Error msg)" if none: "\<forall>v \<in> set known. \<not> satisfies env v rng"
  proof -
    from none have "m = None" by (simp add: m_def maxSatisfying_None)
    then show ?thesis by (simp add: r truthy_def)
  qed
  have p2b: "\<exists>e. updateDependenciesVersions env raw opts s0 = (importAllMissing env opts raw s0, Inl e)"
    if none: "\<forall>v \<in> set known. \<not> satisfies env v rng"
      and item: "item \<in> set raw" "depStr \<in> set (raw_dependencies item)" for item
  proof -
    from p2a[OF none] obtain msg where "getDependencyWithExactVersion env depStr = Inl (Error msg)"
      by (auto simp: r_def)
    from mapSeries_Inl[of depStr "raw_dependencies item" "getDependencyWithExactVersion env", OF item(2) this]
    obtain e' where "mapSeries (getDependencyWithExactVersion env) (raw_dependencies item) = Inl e'" ..
    then have "\<exists>e. parseDevUpdatesItem env item = Inl e"
      by (simp add: parseDevUpdatesItem_def Let_def split: option.splits)
    then obtain e where "parseDevUpdatesItem env item = Inl e" ..
    from mapSeries_Inl[of item raw "parseDevUpdatesItem env", OF item(1) this]
    obtain e'' where "parseDevUpdatesItems env raw = Inl e''"
      by (auto simp: parseDevUpdatesItems_def)
    from workflow_parse_error[OF this] show ?thesis by blast
  qed
  have p3: "\<exists>v. i = changeVersion compId (Some v) \<and> v \<in> set known \<and> satisfies env v rng
                 \<and> (\<forall>w \<in> set known. satisfies env w rng \<longrightarrow> versionKey env w \<le> versionKey env v)"
    if "r = Inr i" for i
  proof -
    from that r obtain v where v: "m = Some v" "i = changeVersion compId (Some v)"
      by (cases m) (auto simp: truthy_def split: if_splits)
    from maxSatisfying_Some[OF v(1)[unfolded m_def]] v(2) show ?thesis by blast
  qed
  have p4: "\<exists>i. r = Inr i" if "\<exists>v \<in> set known. satisfies env v rng" "[] \<notin> set known"
  proof -
    from that(1) have "m \<noteq> None" by (simp add: m_def maxSatisfying_None)
    then obtain v where v: "m = Some v" by blast
    from maxSatisfying_Some[OF v[unfolded m_def]] that(2) have "v \<noteq> []" by auto
    with v show ?thesis by (simp add: r truthy_def)
  qed
  show ?thesis
    using p1 p2a p2b p3 p4
    unfolding Let_def compId_def[symmetric] rng_def[symmetric] known_def[symmetric] r_def[symmetric]
    by blast
qed


theorem dependency_resolved_to_highest_satisfying_witness:
  "getDependencyWithExactVersion sample_env ''s/b'' = Inr (ComponentID (mkId ''s'' ''b'' (Some ''2.0.0'')))
   \<and> isl (getDependencyWithExactVersion sample_env ''s/b@^5.0.0'')"
proof -
  have idb: "fromString sample_env ''s/b'' = ComponentID (mkId ''s'' ''b'' None)"
    by (simp add: sample_env_def sample_fromString_def)
  have id5: "fromString sample_env ''s/b@^5.0.0'' = ComponentID (mkId ''s'' ''b'' (Some ''^5.0.0''))"
    by (simp add: sample_env_def sample_fromString_def)
  have known: "listVersions sample_env (changeVersion (ComponentID (mkId ''s'' ''b'' v)) None)
               = [''1.0.0'', ''1.2.0'', ''2.0.0'']" for v
    by (simp add: sample_env_def sample_versions_def changeVersion_def mkId_def)
  have rb: "or_default (cid_version (ComponentID (mkId ''s'' ''b'' None))) ''*'' = ''*''"
    by (simp add: or_default_def cid_version_def mkId_def)
  have r5: "or_default (cid_version (ComponentID (mkId ''s'' ''b'' (Some ''^5.0.0'')))) ''*'' = ''^5.0.0''"
    by (simp add: or_default_def cid_version_def mkId_def)
  have sat: "satisfies sample_env v ''*''" for v
    by (simp add: sample_env_def sample_satisfies_def)
  have unsat: "\<forall>v \<in> set [''1.0.0'', ''1.2.0'', ''2.0.0'']. \<not> satisfies sample_env v ''^5.0.0''"
    by (simp add: sample_env_def sample_satisfies_def)
  note b = dependency_resolved_to_highest_satisfying[of sample_env "''s/b''" "[]" opts s0,
      unfolded Let_def idb known rb]
  from b sat obtain i where i: "getDependencyWithExactVersion sample_env ''s/b'' = Inr i"
    by auto
  with b obtain v where v: "i = changeVersion (ComponentID (mkId ''s'' ''b'' None)) (Some v)"
    "v \<in> set [''1.0.0'', ''1.2.0'', ''2.0.0'']"
    "\<forall>w \<in> set [''1.0.0'', ''1.2.0'', ''2.0.0'']. satisfies sample_env w ''*''
        \<longrightarrow> versionKey sample_env w \<le> versionKey sample_env v"
    by blast
  from v(3) sat have "versionKey sample_env ''2.0.0'' \<le> versionKey sample_env v" by simp
  with v(2) have "v = ''2.0.0''"
    by (auto simp: sample_env_def sample_key_def)
  with v(1) i have a: "getDependencyWithExactVersion sample_env ''s/b''
      = Inr (ComponentID (mkId ''s'' ''b'' (Some ''2.0.0'')))"
    by (simp add: changeVersion_def mkId_def)
  note c = dependency_resolved_to_highest_satisfying[of sample_env "''s/b@^5.0.0''" "[]" opts s0,
      unfolded Let_def id5 known r5]
  from c unsat have "\<exists>msg. getDependencyWithExactVersion sample_env ''s/b@^5.0.0'' = Inl (Error msg)"
    by blast
  then have "isl (getDependencyWithExactVersion sample_env ''s/b@^5.0.0'')" by auto
  with a show ?thesis by simp
qed

subsection \<open>The workflow\<close>

lemma workflow_rewrite_error:
  "parseDevUpdatesItems env raw = Inr items \<Longrightarrow>
   updateAllDeps env (planned env opts raw s0 items) = (s, Some e) \<Longrightarrow>
   updateDependenciesVersions env raw opts s0 = (s, Inl e)"
  by (simp add: updateDependenciesVersions_def planned_def Let_def)

lemma workflow_success:
  "parseDevUpdatesItems env raw = Inr items \<Longrightarrow>
   updateAllDeps env (planned env opts raw s0 items) = (s, None) \<Longrightarrow>
   tagListener env (components (staged env opts s)) True True = Inr (bdm, pipes) \<Longrightarrow>
   updateDependenciesVersions env raw opts s0 =
     (let s1 = updateComponentsByTagResult env (builderDataMapToLegacyOnTagResults env bdm) (staged env opts s);
          s2 = saveDataIntoLocalScope (finalStatus env pipes) s1;
          s3 = (if flag (multiple opts) then export s2 else clearScopesCaches env s2)
      in (s3, Inr \<lparr>res_depsUpdateItems = depsUpdateItems s3,
                   publishedPackages = getPublishedPackages env (legacyComponents s1),
                   error = map_option (getErrorMessageFormatted env) (find (hasErrors env) pipes)\<rparr>))"
  by (simp add: updateDependenciesVersions_def planned_def staged_def finalStatus_def Let_def)

lemma workflow_build_error:
  "parseDevUpdatesItems env raw = Inr items \<Longrightarrow>
   updateAllDeps env (planned env opts raw s0 items) = (s, None) \<Longrightarrow>
   tagListener env (components (staged env opts s)) True True = Inl e \<Longrightarrow>
   updateDependenciesVersions env raw opts s0 = (staged env opts s, Inl e)"
  by (simp add: updateDependenciesVersions_def planned_def staged_def Let_def)

lemma updateAllDepsSeries_length:
  "length (fst (updateAllDepsSeries env cur ds)) = length ds"
  by (induction ds) (auto split: prod.splits option.splits)

lemma updateAllDeps_eq:
  "updateAllDeps env s =
     (s\<lparr>depsUpdateItems :=
          fst (updateAllDepsSeries env (map (\<lambda>d. legacy (comp_id (component d))) (depsUpdateItems s))
                 (depsUpdateItems s))\<rparr>,
      snd (updateAllDepsSeries env (map (\<lambda>d. legacy (comp_id (component d))) (depsUpdateItems s))
             (depsUpdateItems s)))"
  by (simp add: updateAllDeps_def Let_def comp_def split: prod.splits)

lemma updateAllDeps_length:
  "length (depsUpdateItems (fst (updateAllDeps env s))) = length (depsUpdateItems s)"
  by (simp add: updateAllDeps_eq updateAllDepsSeries_length)

lemma updateAllDeps_trace: "trace (fst (updateAllDeps env s)) = trace s"
  by (simp add: updateAllDeps_eq)

lemma planned_items:
  "depsUpdateItems (planned env opts raw s0 items)
   = map (\<lambda>d. on_legacy (\<lambda>c. c\<lparr>c_version := Some (futureVersion env opts d)\<rparr>) d) items"
  by (simp add: planned_def updateFutureVersion_def)

lemma planned_trace:
  "trace (planned env opts raw s0 items) = trace (importAllMissing env opts raw s0)"
  by (simp add: planned_def updateFutureVersion_def)

lemma staged_length: "length (depsUpdateItems (staged env opts s)) = length (depsUpdateItems s)"
  by (simp add: staged_def updateComponents_def addComponentsToScope_def addBuildStatus_def
      addFlattenedDependenciesToComponents_def addLogToComponents_def)

lemma saved_items:
  "depsUpdateItems (saveDataIntoLocalScope st s)
   = map (on_legacy (\<lambda>c. c\<lparr>buildStatus := Some st\<rparr>)) (depsUpdateItems s)"
  by (simp add: saveDataIntoLocalScope_def Let_def)

lemma saved_trace:
  "trace (saveDataIntoLocalScope st s)
   = trace s @ map EnrichSource (legacyComponents (saveDataIntoLocalScope st s)) @ [Persist]"
  by (simp add: saveDataIntoLocalScope_def Let_def legacyComponents_def comp_def)

lemma saved_status:
  "c \<in> set (legacyComponents (saveDataIntoLocalScope st s)) \<Longrightarrow> buildStatus c = Some st"
  by (auto simp: saveDataIntoLocalScope_def Let_def legacyComponents_def on_legacy_def)

lemma finish_items:
  "depsUpdateItems (if m then export s else clearScopesCaches env s) = depsUpdateItems s"
  by (simp add: export_def clearScopesCaches_def Let_def)

lemma finish_legacy:
  "legacyComponents (if m then export s else clearScopesCaches env s) = legacyComponents s"
  by (simp add: legacyComponents_def finish_items)

lemma finish_trace:
  "\<exists>after. trace (if m then export s else clearScopesCaches env s) = trace s @ after"
  by (simp add: export_def clearScopesCaches_def Let_def)

lemma tagged_length:
  "length (depsUpdateItems (updateComponentsByTagResult env r s)) = length (depsUpdateItems s)"
  by (simp add: updateComponentsByTagResult_def)

lemma tagged_trace: "trace (updateComponentsByTagResult env r s) = trace s"
  by (simp add: updateComponentsByTagResult_def)

lemma find_hasErrors_None: "find P xs = None \<longleftrightarrow> (\<forall>p \<in> set xs. \<not> P p)"
  by (auto simp: find_None_iff)

lemma finalStatus_eq:
  "finalStatus env pipes = (if \<exists>p \<in> set pipes. hasErrors env p then Failed else Succeed)"
  by (auto simp: finalStatus_def find_None_iff)

text \<open>
  Claim C1. Take a run whose raw items parse into \<open>items\<close>, whose rewriting succeeds
  and whose build returns the pipeline results \<open>pipes\<close>. The workflow returns a result;
  its error field is null exactly when no pipeline result has errors. When one has, the
  error field is the formatted message of a pipeline result with errors, every legacy
  component of the batch has the build status \<open>Failed\<close>, and the batch is committed all
  the same: each of these components is handed to \<^verbatim>\<open>enrichSource\<close> and the objects are
  persisted.
\<close>

theorem build_errors_commit_failed_batch:
  assumes parse: "parseDevUpdatesItems env raw = Inr items"
    and rewrite: "updateAllDeps env (planned env opts raw s0 items) = (s, None)"
    and build: "tagListener env (components (staged env opts s)) True True = Inr (bdm, pipes)"
  shows "\<exists>s' res. updateDependenciesVersions env raw opts s0 = (s', Inr res)
           \<and> res_depsUpdateItems res = depsUpdateItems s'
           \<and> length (depsUpdateItems s') = length items
           \<and> (error res = None \<longleftrightarrow> (\<forall>p \<in> set pipes. \<not> hasErrors env p))
           \<and> ((\<exists>p \<in> set pipes. hasErrors env p) \<longrightarrow>
                (\<exists>p \<in> set pipes. hasErrors env p \<and> error res = Some (getErrorMessageFormatted env p))
                \<and> (\<forall>c \<in> set (legacyComponents s'). buildStatus c = Some Failed)
                \<and> (\<exists>after. trace s' = trace (staged env opts s)
                               @ map EnrichSource (legacyComponents s') @ [Persist] @ after))"
proof -
  define s1 where "s1 = updateComponentsByTagResult env (builderDataMapToLegacyOnTagResults env bdm) (staged env opts s)"
  define s2 where "s2 = saveDataIntoLocalScope (finalStatus env pipes) s1"
  define s3 where "s3 = (if flag (multiple opts) then export s2 else clearScopesCaches env s2)"
  define res where "res = \<lparr>res_depsUpdateItems = depsUpdateItems s3,
                   publishedPackages = getPublishedPackages env (legacyComponents s1),
                   error = map_option (getErrorMessageFormatted env) (find (hasErrors env) pipes)\<rparr>"
  have run: "updateDependenciesVersions env raw opts s0 = (s3, Inr res)"
    using workflow_success[OF parse rewrite build]
    by (simp add: Let_def s1_def s2_def s3_def res_def)
  have "length (depsUpdateItems s) = length items"
    using updateAllDeps_length[of env "planned env opts raw s0 items"] rewrite
    by (simp add: planned_items)
  then have len: "length (depsUpdateItems s3) = length items"
    by (simp add: s3_def finish_items s2_def saved_items s1_def tagged_length staged_length)
  have err: "error res = None \<longleftrightarrow> (\<forall>p \<in> set pipes. \<not> hasErrors env p)"
    by (simp add: res_def find_hasErrors_None)
  have leg: "legacyComponents s3 = legacyComponents s2"
    by (simp add: s3_def finish_legacy)
  obtain after where after: "trace s3 = trace s2 @ after"
    using finish_trace[of "flag (multiple opts)" s2 env] by (auto simp: s3_def)
  have tr: "trace s3 = trace (staged env opts s) @ map EnrichSource (legacyComponents s3) @ [Persist] @ after"
    by (simp add: after leg) (simp add: s2_def saved_trace s1_def tagged_trace)
  have failed: "\<forall>c \<in> set (legacyComponents s3). buildStatus c = Some Failed"
    if "\<exists>p \<in> set pipes. hasErrors env p"
    using that by (auto simp: leg s2_def finalStatus_eq dest: saved_status)
  have msg: "\<exists>p \<in> set pipes. hasErrors env p \<and> error res = Some (getErrorMessageFormatted env p)"
    if "\<exists>p \<in> set pipes. hasErrors env p"
  proof -
    from that have "find (hasErrors env) pipes \<noteq> None" by (simp add: find_hasErrors_None)
    then obtain p where p: "find (hasErrors env) pipes = Some p" by blast
    then have "p \<in> set pipes" "hasErrors env p"
      by (auto simp: find_Some_iff)
    with p show ?thesis by (auto simp: res_def)
  qed
  from run len err failed msg tr show ?thesis
    by (intro exI[of _ s3] exI[of _ res]) (auto simp: res_def)
qed



theorem build_errors_commit_failed_batch_witness:
  "error (projr (snd (updateDependenciesVersions sample_env
      [raw_item ''s/a'' [''s/b@^1.0.0''], raw_item ''s/b'' []] (sample_options (Some True) None) empty_state)))
     = Some ''tester failed''
   \<and> map buildStatus (legacyComponents (fst (updateDependenciesVersions sample_env
      [raw_item ''s/a'' [''s/b@^1.0.0''], raw_item ''s/b'' []] (sample_options (Some True) None) empty_state)))
     = [Some Failed, Some Failed]"
proof -
  let ?raw = "[raw_item ''s/a'' [''s/b@^1.0.0''], raw_item ''s/b'' []]"
  let ?opts = "sample_options (Some True) None"
  let ?items = "projr (parseDevUpdatesItems sample_env ?raw)"
  let ?r = "updateAllDeps sample_env (planned sample_env ?opts ?raw empty_state ?items)"
  let ?b = "tagListener sample_env (components (staged sample_env ?opts (fst ?r))) True True"
  have "\<not> isl (parseDevUpdatesItems sample_env ?raw)" by code_simp
  then have parse: "parseDevUpdatesItems sample_env ?raw = Inr ?items" by simp
  have "snd ?r = None" by code_simp
  then have rewrite: "?r = (fst ?r, None)" by (simp add: prod_eq_iff)
  have "\<not> isl ?b" and "snd (projr ?b) = [None, Some ''tester failed'']" by code_simp+
  then have build: "?b = Inr (fst (projr ?b), [None, Some ''tester failed''])"
    by (cases ?b) (auto simp: prod_eq_iff)
  have len: "length ?items = 2" by code_simp
  have he: "hasErrors sample_env = (\<lambda>p. p \<noteq> None)"
    and ge: "getErrorMessageFormatted sample_env (Some ''tester failed'') = ''tester failed''"
    by (simp_all add: sample_env_def)
  from build_errors_commit_failed_batch[OF parse rewrite build]
  obtain s' res where run: "updateDependenciesVersions sample_env ?raw ?opts empty_state = (s', Inr res)"
    and l: "length (depsUpdateItems s') = length ?items"
    and f: "(\<exists>p \<in> set [None, Some ''tester failed'']. hasErrors sample_env p) \<longrightarrow>
              (\<exists>p \<in> set [None, Some ''tester failed'']. hasErrors sample_env p
                  \<and> error res = Some (getErrorMessageFormatted sample_env p))
              \<and> (\<forall>c \<in> set (legacyComponents s'). buildStatus c = Some Failed)"
    by blast
  from f have e: "error res = Some ''tester failed''"
    and st: "\<forall>c \<in> set (legacyComponents s'). buildStatus c = Some Failed"
    by (auto simp: he ge)
  from l len have "length (legacyComponents s') = 2"
    by (simp add: legacyComponents_def)
  then obtain c1 c2 where "legacyComponents s' = [c1, c2]"
    by (cases "legacyComponents s'"; cases "tl (legacyComponents s')") auto
  with st have "map buildStatus (legacyComponents s') = [Some Failed, Some Failed]" by simp
  with e run show ?thesis by simp
qed


text \<open>
  Claim C10. In such a run one status is computed from all the pipeline results and
  assigned to every legacy component of the batch before it is handed to
  \<^verbatim>\<open>enrichSource\<close> and persisted: \<open>Failed\<close> for all of them when any pipeline result has
  errors, \<open>Succeed\<close> for all of them when none has.
\<close>

theorem one_build_status_for_whole_batch:
  assumes parse: "parseDevUpdatesItems env raw = Inr items"
    and rewrite: "updateAllDeps env (planned env opts raw s0 items) = (s, None)"
    and build: "tagListener env (components (staged env opts s)) True True = Inr (bdm, pipes)"
  shows "\<exists>s' res after. updateDependenciesVersions env raw opts s0 = (s', Inr res)
           \<and> trace s' = trace (staged env opts s) @ map EnrichSource (legacyComponents s') @ [Persist] @ after
           \<and> length (legacyComponents s') = length items
           \<and> map (\<lambda>d. state_consumer (component d)) (res_depsUpdateItems res) = legacyComponents s'
           \<and> ((\<exists>p \<in> set pipes. hasErrors env p) \<longrightarrow>
                (\<forall>c \<in> set (legacyComponents s'). buildStatus c = Some Failed))
           \<and> ((\<forall>p \<in> set pipes. \<not> hasErrors env p) \<longrightarrow>
                (\<forall>c \<in> set (legacyComponents s'). buildStatus c = Some Succeed))"
proof -
  define s1 where "s1 = updateComponentsByTagResult env (builderDataMapToLegacyOnTagResults env bdm) (staged env opts s)"
  define s2 where "s2 = saveDataIntoLocalScope (finalStatus env pipes) s1"
  define s3 where "s3 = (if flag (multiple opts) then export s2 else clearScopesCaches env s2)"
  define res where "res = \<lparr>res_depsUpdateItems = depsUpdateItems s3,
                   publishedPackages = getPublishedPackages env (legacyComponents s1),
                   error = map_option (getErrorMessageFormatted env) (find (hasErrors env) pipes)\<rparr>"
  have run: "updateDependenciesVersions env raw opts s0 = (s3, Inr res)"
    using workflow_success[OF parse rewrite build]
    by (simp add: Let_def s1_def s2_def s3_def res_def)
  have "length (depsUpdateItems s) = length items"
    using updateAllDeps_length[of env "planned env opts raw s0 items"] rewrite
    by (simp add: planned_items)
  then have "length (depsUpdateItems s3) = length items"
    by (simp add: s3_def finish_items s2_def saved_items s1_def tagged_length staged_length)
  then have len: "length (legacyComponents s3) = length items"
    by (simp add: legacyComponents_def)
  have leg: "legacyComponents s3 = legacyComponents s2"
    by (simp add: s3_def finish_legacy)
  obtain after where after: "trace s3 = trace s2 @ after"
    using finish_trace[of "flag (multiple opts)" s2 env] by (auto simp: s3_def)
  have tr: "trace s3 = trace (staged env opts s) @ map EnrichSource (legacyComponents s3) @ [Persist] @ after"
    by (simp add: after leg) (simp add: s2_def saved_trace s1_def tagged_trace)
  have st: "\<forall>c \<in> set (legacyComponents s3). buildStatus c = Some (finalStatus env pipes)"
    by (auto simp: leg s2_def dest: saved_status)
  have rs: "map (\<lambda>d. state_consumer (component d)) (res_depsUpdateItems res) = legacyComponents s3"
    by (simp add: res_def legacyComponents_def)
  from st have failed: "(\<exists>p \<in> set pipes. hasErrors env p) \<longrightarrow>
        (\<forall>c \<in> set (legacyComponents s3). buildStatus c = Some Failed)"
    by (simp add: finalStatus_eq)
  from st have ok: "(\<forall>p \<in> set pipes. \<not> hasErrors env p) \<longrightarrow>
        (\<forall>c \<in> set (legacyComponents s3). buildStatus c = Some Succeed)"
    by (simp add: finalStatus_eq)
  from run tr len rs failed ok show ?thesis by blast
qed

theorem one_build_status_for_whole_batch_witness:
  "map buildStatus (legacyComponents (fst (updateDependenciesVersions sample_env
      [raw_item ''s/a'' [''s/b@^1.0.0'']] (sample_options (Some True) None) empty_state)))
     = [Some Succeed]"
proof -
  let ?raw = "[raw_item ''s/a'' [''s/b@^1.0.0'']]"
  let ?opts = "sample_options (Some True) None"
  let ?items = "projr (parseDevUpdatesItems sample_env ?raw)"
  let ?r = "updateAllDeps sample_env (planned sample_env ?opts ?raw empty_state ?items)"
  let ?b = "tagListener sample_env (components (staged sample_env ?opts (fst ?r))) True True"
  have "\<not> isl (parseDevUpdatesItems sample_env ?raw)" by code_simp
  then have parse: "parseDevUpdatesItems sample_env ?raw = Inr ?items" by simp
  have "snd ?r = None" by code_simp
  then have rewrite: "?r = (fst ?r, None)" by (simp add: prod_eq_iff)
  have "\<not> isl ?b" and "snd (projr ?b) = [None, None]" by code_simp+
  then have build: "?b = Inr (fst (projr ?b), [None, None])"
    by (cases ?b) (auto simp: prod_eq_iff)
  have len: "length ?items = 1" by code_simp
  have he: "hasErrors sample_env = (\<lambda>p. p \<noteq> None)"
    by (simp add: sample_env_def)
  from one_build_status_for_whole_batch[OF parse rewrite build]
  obtain s' res where run: "updateDependenciesVersions sample_env ?raw ?opts empty_state = (s', Inr res)"
    and l: "length (legacyComponents s') = length ?items"
    and f: "(\<forall>p \<in> set [None, None]. \<not> hasErrors sample_env p) \<longrightarrow>
              (\<forall>c \<in> set (legacyComponents s'). buildStatus c = Some Succeed)"
    by blast
  from f have st: "\<forall>c \<in> set (legacyComponents s'). buildStatus c = Some Succeed"
    by (simp add: he)
  from l len obtain c1 where "legacyComponents s' = [c1]"
    by (cases "legacyComponents s'") auto
  with st have "map buildStatus (legacyComponents s') = [Some Succeed]" by simp
  with run show ?thesis by simp
qed

subsection \<open>Version planning\<close>

lemma rewrite_keeps_version:
  "c_version (state_consumer (fst (updateDependenciesVersionsOfComponent env c ds cur)))
   = c_version (state_consumer c)"
  by (simp add: updateDependenciesVersionsOfComponent_def Let_def split: prod.splits option.splits)

lemma resolver_keeps_version:
  "c_version (state_consumer (updateDependencyResolver env c)) = c_version (state_consumer c)"
  by (simp add: updateDependencyResolver_def Let_def split: option.splits)

lemma series_keeps_versions:
  "map (\<lambda>d. c_version (state_consumer (component d))) (fst (updateAllDepsSeries env cur ds))
   = map (\<lambda>d. c_version (state_consumer (component d))) ds"
proof (induction ds)
  case Nil
  then show ?case by simp
next
  case (Cons d ds)
  obtain c' e where u: "updateDependenciesVersionsOfComponent env (component d) (item_dependencies d) cur = (c', e)"
    by (cases "updateDependenciesVersionsOfComponent env (component d) (item_dependencies d) cur")
  from rewrite_keeps_version[of env "component d" "item_dependencies d" cur] u
  have v: "c_version (state_consumer c') = c_version (state_consumer (component d))" by simp
  show ?case
    using Cons.IH u v
    by (cases e) (auto simp: resolver_keeps_version split: prod.splits)
qed

text \<open>
  Claim C6. Once the raw items are parsed, every item gets its next version and nothing
  else of it changes. With \<open>tag\<close> set it is the version that \<^verbatim>\<open>getVersionToAdd\<close> computes
  from the release type or exact version of the item's \<open>versionToTag\<close>, and of \<open>patch\<close>
  when the item has none (or an empty one); without \<open>tag\<close> it is the snapshot of
  \<^verbatim>\<open>getSnapToAdd\<close>. The rewriting is run on the batch so planned: when it throws, the
  workflow ends with its error and the state it left; when it succeeds, the workflow
  goes on to the build from the state it left. The rewriting leaves the planned
  versions as they are.
\<close>

theorem versions_planned_before_rewriting:
  assumes parse: "parseDevUpdatesItems env raw = Inr items"
  shows "length (depsUpdateItems (planned env opts raw s0 items)) = length items
     \<and> (\<forall>i < length items.
           (let d = items ! i;
                d' = depsUpdateItems (planned env opts raw s0 items) ! i;
                old = c_id (state_consumer (component d));
                spec = getValidVersionOrReleaseType env
                         (case versionToTag d of
                            None \<Rightarrow> ''patch''
                          | Some v \<Rightarrow> if v = [] then ''patch'' else v)
            in d' = on_legacy (\<lambda>c. c\<lparr>c_version := c_version (state_consumer (component d'))\<rparr>) d
               \<and> (flag (tag opts) \<longrightarrow> c_version (state_consumer (component d'))
                      = Some (getVersionToAdd env old (releaseType spec) (exactVersion spec)))
               \<and> (\<not> flag (tag opts) \<longrightarrow> c_version (state_consumer (component d'))
                      = Some (getSnapToAdd env old))))
     \<and> (case updateAllDeps env (planned env opts raw s0 items) of
           (s, Some e) \<Rightarrow> updateDependenciesVersions env raw opts s0 = (s, Inl e)
         | (s, None) \<Rightarrow>
             (case tagListener env (components (staged env opts s)) True True of
                Inl e \<Rightarrow> updateDependenciesVersions env raw opts s0 = (staged env opts s, Inl e)
              | Inr b \<Rightarrow> (\<exists>s' res. updateDependenciesVersions env raw opts s0 = (s', Inr res))))
     \<and> map (\<lambda>d. c_version (state_consumer (component d)))
           (depsUpdateItems (fst (updateAllDeps env (planned env opts raw s0 items))))
         = map (\<lambda>d. c_version (state_consumer (component d)))
             (depsUpdateItems (planned env opts raw s0 items))"
proof -
  let ?p = "planned env opts raw s0 items"
  have p1: "length (depsUpdateItems ?p) = length items"
    by (simp add: planned_items)
  have p2: "let d = items ! i;
                d' = depsUpdateItems ?p ! i;
                old = c_id (state_consumer (component d));
                spec = getValidVersionOrReleaseType env
                         (case versionToTag d of
                            None \<Rightarrow> ''patch''
                          | Some v \<Rightarrow> if v = [] then ''patch'' else v)
            in d' = on_legacy (\<lambda>c. c\<lparr>c_version := c_version (state_consumer (component d'))\<rparr>) d
               \<and> (flag (tag opts) \<longrightarrow> c_version (state_consumer (component d'))
                      = Some (getVersionToAdd env old (releaseType spec) (exactVersion spec)))
               \<and> (\<not> flag (tag opts) \<longrightarrow> c_version (state_consumer (component d'))
                      = Some (getSnapToAdd env old))"
    if "i < length items" for i
    using that by (simp add: planned_items Let_def on_legacy_def futureVersion_def or_default_def)
  have p3: "case updateAllDeps env ?p of
           (s, Some e) \<Rightarrow> updateDependenciesVersions env raw opts s0 = (s, Inl e)
         | (s, None) \<Rightarrow>
             (case tagListener env (components (staged env opts s)) True True of
                Inl e \<Rightarrow> updateDependenciesVersions env raw opts s0 = (staged env opts s, Inl e)
              | Inr b \<Rightarrow> (\<exists>s' res. updateDependenciesVersions env raw opts s0 = (s', Inr res)))"
  proof (cases "updateAllDeps env ?p")
    case (Pair s e)
    show ?thesis
    proof (cases e)
      case None
      show ?thesis
      proof (cases "tagListener env (components (staged env opts s)) True True")
        case (Inl err)
        from workflow_build_error[OF parse Pair[unfolded None] this] Pair None Inl
        show ?thesis by simp
      next
        case (Inr b)
        obtain bdm pipes where "b = (bdm, pipes)" by (cases b)
        with Inr have "tagListener env (components (staged env opts s)) True True = Inr (bdm, pipes)"
          by simp
        from workflow_success[OF parse Pair[unfolded None] this] Pair None Inr
        show ?thesis by (simp add: Let_def)
      qed
    next
      case (Some err)
      from workflow_rewrite_error[OF parse Pair[unfolded Some]] Pair Some
      show ?thesis by simp
    qed
  qed
  have p4: "map (\<lambda>d. c_version (state_consumer (component d))) (depsUpdateItems (fst (updateAllDeps env ?p)))
         = map (\<lambda>d. c_version (state_consumer (component d))) (depsUpdateItems ?p)"
    by (simp add: updateAllDeps_eq series_keeps_versions)
  from p1 p2 p3 p4 show ?thesis by blast
qed

theorem versions_planned_before_rewriting_witness:
  "map (\<lambda>d. c_version (state_consumer (component d)))
       (depsUpdateItems (planned sample_env (sample_options (Some True) None)
          [raw_item ''s/a'' [], \<lparr>componentId = ''s/b'', raw_dependencies = [], raw_versionToTag = Some ''5.0.0''\<rparr>]
          empty_state
          (projr (parseDevUpdatesItems sample_env
             [raw_item ''s/a'' [], \<lparr>componentId = ''s/b'', raw_dependencies = [], raw_versionToTag = Some ''5.0.0''\<rparr>]))))
     = [Some ''0.0.2'', Some ''5.0.0'']
   \<and> map (\<lambda>d. c_version (state_consumer (component d)))
       (depsUpdateItems (planned sample_env (sample_options None None)
          [raw_item ''s/a'' [], \<lparr>componentId = ''s/b'', raw_dependencies = [], raw_versionToTag = Some ''5.0.0''\<rparr>]
          empty_state
          (projr (parseDevUpdatesItems sample_env
             [raw_item ''s/a'' [], \<lparr>componentId = ''s/b'', raw_dependencies = [], raw_versionToTag = Some ''5.0.0''\<rparr>]))))
     = [Some ''snap-of-a'', Some ''snap-of-b'']"
proof -
  let ?raw = "[raw_item ''s/a'' [], \<lparr>componentId = ''s/b'', raw_dependencies = [], raw_versionToTag = Some ''5.0.0''\<rparr>]"
  let ?tag = "sample_options (Some True) None"
  let ?snap = "sample_options None None"
  let ?items = "projr (parseDevUpdatesItems sample_env ?raw)"
  let ?v = "\<lambda>d. c_version (state_consumer (component d))"
  let ?spec = "\<lambda>i. getValidVersionOrReleaseType sample_env
                      (case versionToTag (?items ! i) of
                         None \<Rightarrow> ''patch''
                       | Some v \<Rightarrow> if v = [] then ''patch'' else v)"
  have "\<not> isl (parseDevUpdatesItems sample_env ?raw)" by code_simp
  then have parse: "parseDevUpdatesItems sample_env ?raw = Inr ?items" by simp
  have len: "length ?items = 2" by code_simp
  have tg: "flag (tag ?tag)" "\<not> flag (tag ?snap)" by (simp_all add: flag_def sample_options_def)
  have tags: "versionToTag (?items ! 0) = None" "versionToTag (?items ! 1) = Some ''5.0.0''"
    by code_simp+
  have v0: "getVersionToAdd sample_env (c_id (state_consumer (component (?items ! 0))))
      (releaseType (?spec 0)) (exactVersion (?spec 0)) = ''0.0.2''"
    and v1: "getVersionToAdd sample_env (c_id (state_consumer (component (?items ! 1))))
      (releaseType (?spec 1)) (exactVersion (?spec 1)) = ''5.0.0''"
    and s0: "getSnapToAdd sample_env (c_id (state_consumer (component (?items ! 0)))) = ''snap-of-a''"
    and s1: "getSnapToAdd sample_env (c_id (state_consumer (component (?items ! 1)))) = ''snap-of-b''"
    by code_simp+
  note t = versions_planned_before_rewriting[OF parse, of ?tag empty_state]
  note u = versions_planned_before_rewriting[OF parse, of ?snap empty_state]
  from t have lt: "length (depsUpdateItems (planned sample_env ?tag ?raw empty_state ?items)) = 2"
    by (simp add: len)
  from u have lu: "length (depsUpdateItems (planned sample_env ?snap ?raw empty_state ?items)) = 2"
    by (simp add: len)
  have lt2: "(0::nat) < 2" "(1::nat) < 2" by simp_all
  from t tg(1) have a: "?v (depsUpdateItems (planned sample_env ?tag ?raw empty_state ?items) ! i)
        = Some (getVersionToAdd sample_env (c_id (state_consumer (component (?items ! i))))
                  (releaseType (?spec i)) (exactVersion (?spec i)))" if "i < 2" for i
    using that by (simp add: len Let_def)
  have t0: "?v (depsUpdateItems (planned sample_env ?tag ?raw empty_state ?items) ! 0) = Some ''0.0.2''"
    using a[OF lt2(1)] unfolding v0 .
  have t1: "?v (depsUpdateItems (planned sample_env ?tag ?raw empty_state ?items) ! 1) = Some ''5.0.0''"
    using a[OF lt2(2)] unfolding v1 .
  from u tg(2) have b: "?v (depsUpdateItems (planned sample_env ?snap ?raw empty_state ?items) ! i)
        = Some (getSnapToAdd sample_env (c_id (state_consumer (component (?items ! i)))))" if "i < 2" for i
    using that by (simp add: len Let_def)
  have u0: "?v (depsUpdateItems (planned sample_env ?snap ?raw empty_state ?items) ! 0) = Some ''snap-of-a''"
    using b[OF lt2(1)] unfolding s0 .
  have u1: "?v (depsUpdateItems (planned sample_env ?snap ?raw empty_state ?items) ! 1) = Some ''snap-of-b''"
    using b[OF lt2(2)] unfolding s1 .
  have two: "map f xs = [f (xs ! 0), f (xs ! 1)]" if "length xs = 2" for f :: "'a \<Rightarrow> 'b" and xs
    using that by (cases xs; cases "tl xs") auto
  from two[OF lt, of ?v] t0 t1 two[OF lu, of ?v] u0 u1 show ?thesis by simp
qed

subsection \<open>Absent components\<close>

lemma mapSeries_first_failure:
  "i < length xs \<Longrightarrow> isl (f (xs ! i)) \<Longrightarrow>
   \<exists>j\<le>i. \<exists>e. mapSeries f xs = Inl e \<and> f (xs ! j) = Inl e \<and> (\<forall>k<j. \<not> isl (f (xs ! k)))"
proof (induction xs arbitrary: i)
  case Nil
  then show ?case by simp
next
  case (Cons x xs)
  show ?case
  proof (cases "f x")
    case (Inl e)
    then show ?thesis by (intro exI[of _ 0]) simp
  next
    case (Inr y)
    with Cons.prems obtain i' where i': "i = Suc i'" by (cases i) auto
    with Cons.prems have "i' < length xs" "isl (f (xs ! i'))" by simp_all
    from Cons.IH[OF this] obtain j e where j: "j \<le> i'" "mapSeries f xs = Inl e" "f (xs ! j) = Inl e"
      "\<forall>k<j. \<not> isl (f (xs ! k))" by blast
    have "\<forall>k<Suc j. \<not> isl (f ((x # xs) ! k))"
    proof (intro allI impI)
      fix k assume "k < Suc j"
      with j(4) Inr show "\<not> isl (f ((x # xs) ! k))" by (cases k) auto
    qed
    with j i' Inr show ?thesis
      by (intro exI[of _ "Suc j"]) simp
  qed
qed

text \<open>
  Claim C8, amended. When the store has no component for the identifier of a raw item,
  loading that item throws \<^verbatim>\<open>ComponentNotFound\<close>, and the workflow aborts in the parse
  step with the error of the first item that fails: \<^verbatim>\<open>ComponentNotFound\<close> for this
  item when every item before it loads and resolves. The state it leaves is the initial
  one with the import call added: no item is planned or rewritten, nothing is staged
  or committed.
\<close>

theorem absent_component_aborts_batch:
  assumes i: "i < length raw"
    and absent: "scope_get env (fromString env (componentId (raw ! i))) = None"
  shows "parseDevUpdatesItem env (raw ! i) = Inl (ComponentNotFound (fromString env (componentId (raw ! i))))
     \<and> (\<exists>j\<le>i. \<exists>e ids.
           updateDependenciesVersions env raw opts s0 = (s0\<lparr>trace := trace s0 @ [ScopeImport ids False]\<rparr>, Inl e)
           \<and> parseDevUpdatesItem env (raw ! j) = Inl e
           \<and> (\<forall>k<j. \<not> isl (parseDevUpdatesItem env (raw ! k))))
     \<and> ((\<forall>k<i. \<not> isl (parseDevUpdatesItem env (raw ! k))) \<longrightarrow>
           snd (updateDependenciesVersions env raw opts s0)
             = Inl (ComponentNotFound (fromString env (componentId (raw ! i)))))"
proof -
  have p1: "parseDevUpdatesItem env (raw ! i) = Inl (ComponentNotFound (fromString env (componentId (raw ! i))))"
    using absent by (simp add: parseDevUpdatesItem_def Let_def)
  then have "isl (parseDevUpdatesItem env (raw ! i))" by simp
  from mapSeries_first_failure[of i raw "parseDevUpdatesItem env", OF i this]
  obtain j e where j: "j \<le> i" "parseDevUpdatesItems env raw = Inl e" "parseDevUpdatesItem env (raw ! j) = Inl e"
    "\<forall>k<j. \<not> isl (parseDevUpdatesItem env (raw ! k))"
    by (auto simp: parseDevUpdatesItems_def)
  from workflow_parse_error[OF j(2)]
  have run: "updateDependenciesVersions env raw opts s0 = (importAllMissing env opts raw s0, Inl e)" .
  obtain ids where ids: "importAllMissing env opts raw s0 = s0\<lparr>trace := trace s0 @ [ScopeImport ids False]\<rparr>"
    using importAllMissing_trace[of env opts raw s0] by blast
  have p3: "snd (updateDependenciesVersions env raw opts s0)
             = Inl (ComponentNotFound (fromString env (componentId (raw ! i))))"
    if all: "\<forall>k<i. \<not> isl (parseDevUpdatesItem env (raw ! k))"
  proof -
    from j(3) have "isl (parseDevUpdatesItem env (raw ! j))" by simp
    with all j(1) have "j = i" by (cases "j < i") auto
    with j(3) p1 run show ?thesis by simp
  qed
  have p2: "\<exists>j\<le>i. \<exists>e ids.
           updateDependenciesVersions env raw opts s0 = (s0\<lparr>trace := trace s0 @ [ScopeImport ids False]\<rparr>, Inl e)
           \<and> parseDevUpdatesItem env (raw ! j) = Inl e
           \<and> (\<forall>k<j. \<not> isl (parseDevUpdatesItem env (raw ! k)))"
  proof (intro exI[of _ j] conjI exI[of _ e] exI[of _ ids])
    show "j \<le> i" by (rule j(1))
    show "updateDependenciesVersions env raw opts s0 = (s0\<lparr>trace := trace s0 @ [ScopeImport ids False]\<rparr>, Inl e)"
      using run ids by simp
    show "parseDevUpdatesItem env (raw ! j) = Inl e" by (rule j(3))
    show "\<forall>k<j. \<not> isl (parseDevUpdatesItem env (raw ! k))" by (rule j(4))
  qed
  from p1 p2 p3 show ?thesis by blast
qed


theorem absent_component_aborts_batch_witness:
  "snd (updateDependenciesVersions sample_env [raw_item ''s/a'' [], raw_item ''s/z'' []]
          (sample_options (Some True) None) empty_state)
     = Inl (ComponentNotFound (ComponentID (mkId ''s'' ''z'' None)))
   \<and> fst (updateDependenciesVersions sample_env [raw_item ''s/a'' [], raw_item ''s/z'' []]
          (sample_options (Some True) None) empty_state)
     = \<lparr>depsUpdateItems = [], trace = [ScopeImport [] False]\<rparr>"
proof -
  let ?raw = "[raw_item ''s/a'' [], raw_item ''s/z'' []]"
  have i: "1 < length ?raw" by simp
  have absent: "scope_get sample_env (fromString sample_env (componentId (?raw ! 1))) = None"
    by code_simp
  have "\<not> isl (parseDevUpdatesItem sample_env (?raw ! 0))" by code_simp
  then have before: "\<forall>k<1. \<not> isl (parseDevUpdatesItem sample_env (?raw ! k))" by simp
  have z: "fromString sample_env (componentId (?raw ! 1)) = ComponentID (mkId ''s'' ''z'' None)"
    by code_simp
  from absent_component_aborts_batch[OF i absent, of "sample_options (Some True) None" empty_state] before
  have "snd (updateDependenciesVersions sample_env ?raw (sample_options (Some True) None) empty_state)
        = Inl (ComponentNotFound (fromString sample_env (componentId (?raw ! 1))))"
    by blast
  then have a: "snd (updateDependenciesVersions sample_env ?raw (sample_options (Some True) None) empty_state)
        = Inl (ComponentNotFound (ComponentID (mkId ''s'' ''z'' None)))"
    by (simp only: z)
  have b: "fst (updateDependenciesVersions sample_env ?raw (sample_options (Some True) None) empty_state)
     = \<lparr>depsUpdateItems = [], trace = [ScopeImport [] False]\<rparr>"
    by code_simp
  from a b show ?thesis by simp
qed

text \<open>
  The claim C8 as it is written fails: here \<open>s/z\<close> is absent from the store, and the
  workflow throws the error of the first item, whose dependency no known version
  satisfies, not \<^verbatim>\<open>ComponentNotFound\<close>.
\<close>

theorem absent_component_other_error_counterexample:
  "scope_get sample_env (fromString sample_env (componentId (raw_item ''s/z'' []))) = None
   \<and> snd (updateDependenciesVersions sample_env [raw_item ''s/a'' [''s/b@^7''], raw_item ''s/z'' []]
            (sample_options (Some True) None) empty_state)
     = Inl (Error (''unable to find a version that satisfies '' @ dquote @ ''^7'' @ dquote
                   @ '' of '' @ dquote @ ''s/b@^7'' @ dquote))"
  by code_simp

subsection \<open>Edges without a package name\<close>

lemma updateDeps_error:
  "snd (updateDeps toStr pkg cs ids deps) = Some e \<Longrightarrow> \<exists>msg. e = Error msg"
  by (induction deps) (auto simp: Let_def split: option.splits prod.splits if_splits)

lemma updateDeps_missing:
  "d \<in> set deps \<Longrightarrow> searchWithoutVersion ids (dep_id d) \<noteq> None \<Longrightarrow> \<not> truthy (pkg (toStr (dep_id d))) \<Longrightarrow>
   \<exists>msg. snd (updateDeps toStr pkg cs ids deps) = Some (Error msg)"
  by (induction deps) (auto simp: Let_def split: option.splits prod.splits)

lemma rewrite_snd:
  "snd (updateDependenciesVersionsOfComponent env c ds cur)
   = snd (updateDeps (bidToString env) (findPackageName env c) (cidToString env (comp_id c))
            (cur @ map legacy ds) (dependencies (state_consumer c) @ devDependencies (state_consumer c)))"
  by (simp add: updateDependenciesVersionsOfComponent_def Let_def split: prod.splits option.splits)

lemma rewrite_missing:
  assumes "d \<in> set (dependencies (state_consumer c) @ devDependencies (state_consumer c))"
    and "searchWithoutVersion (cur @ map legacy ds) (dep_id d) \<noteq> None"
    and "\<not> truthy (findPackageName env c (bidToString env (dep_id d)))"
  shows "\<exists>msg. snd (updateDependenciesVersionsOfComponent env c ds cur) = Some (Error msg)"
proof -
  from updateDeps_missing[OF assms(1,2), of "findPackageName env c" "bidToString env" "cidToString env (comp_id c)"] assms(3)
  obtain msg where "snd (updateDeps (bidToString env) (findPackageName env c) (cidToString env (comp_id c))
      (cur @ map legacy ds) (dependencies (state_consumer c) @ devDependencies (state_consumer c))) = Some (Error msg)"
    by blast
  then show ?thesis
    by (simp add: rewrite_snd)
qed

lemma series_first_failure:
  "i < length ds \<Longrightarrow>
   snd (updateDependenciesVersionsOfComponent env (component (ds ! i)) (item_dependencies (ds ! i)) cur) = Some err \<Longrightarrow>
   \<exists>j\<le>i. \<exists>e. snd (updateAllDepsSeries env cur ds) = Some e
       \<and> snd (updateDependenciesVersionsOfComponent env (component (ds ! j)) (item_dependencies (ds ! j)) cur) = Some e
       \<and> (\<forall>k<j. snd (updateDependenciesVersionsOfComponent env (component (ds ! k)) (item_dependencies (ds ! k)) cur) = None)
       \<and> drop (Suc j) (fst (updateAllDepsSeries env cur ds)) = drop (Suc j) ds"
proof (induction ds arbitrary: i)
  case Nil
  then show ?case by simp
next
  case (Cons d ds)
  obtain c' e0 where u: "updateDependenciesVersionsOfComponent env (component d) (item_dependencies d) cur = (c', e0)"
    by (cases "updateDependenciesVersionsOfComponent env (component d) (item_dependencies d) cur")
  show ?case
  proof (cases e0)
    case (Some e)
    with u show ?thesis by (intro exI[of _ 0]) simp
  next
    case None
    with Cons.prems u obtain i' where i': "i = Suc i'" by (cases i) auto
    with Cons.prems have "i' < length ds"
      "snd (updateDependenciesVersionsOfComponent env (component (ds ! i')) (item_dependencies (ds ! i')) cur) = Some err"
      by simp_all
    from Cons.IH[OF this] obtain j e where j: "j \<le> i'"
      "snd (updateAllDepsSeries env cur ds) = Some e"
      "snd (updateDependenciesVersionsOfComponent env (component (ds ! j)) (item_dependencies (ds ! j)) cur) = Some e"
      "\<forall>k<j. snd (updateDependenciesVersionsOfComponent env (component (ds ! k)) (item_dependencies (ds ! k)) cur) = None"
      "drop (Suc j) (fst (updateAllDepsSeries env cur ds)) = drop (Suc j) ds"
      by blast
    have "\<forall>k<Suc j. snd (updateDependenciesVersionsOfComponent env (component ((d # ds) ! k))
              (item_dependencies ((d # ds) ! k)) cur) = None"
    proof (intro allI impI)
      fix k assume "k < Suc j"
      with j(4) u None show "snd (updateDependenciesVersionsOfComponent env (component ((d # ds) ! k))
              (item_dependencies ((d # ds) ! k)) cur) = None"
        by (cases k) auto
    qed
    with j i' u None show ?thesis
      by (intro exI[of _ "Suc j"]) (auto split: prod.splits)
  qed
qed

lemma updateDeps_snd:
  "snd (updateDeps toStr pkg cs ids deps)
   = map_option
       (\<lambda>d. Error (''unable to find the package-name of '' @ dquote @ toStr (dep_id d) @ dquote
                    @ '' dependency inside the dependency-resolver data of '' @ dquote @ cs @ dquote))
       (find (\<lambda>d. searchWithoutVersion ids (dep_id d) \<noteq> None \<and> \<not> truthy (pkg (toStr (dep_id d)))) deps)"
  by (induction deps) (auto simp: Let_def split: option.splits prod.splits)

lemma series_prefix:
  "j < length ds \<Longrightarrow>
   \<forall>k<j. snd (updateDependenciesVersionsOfComponent env (component (ds ! k)) (item_dependencies (ds ! k)) cur) = None \<Longrightarrow>
   snd (updateDependenciesVersionsOfComponent env (component (ds ! j)) (item_dependencies (ds ! j)) cur) = Some e \<Longrightarrow>
   fst (updateAllDepsSeries env cur ds)
     = map (\<lambda>d. d\<lparr>component := updateDependencyResolver env
                      (fst (updateDependenciesVersionsOfComponent env (component d) (item_dependencies d) cur))\<rparr>)
           (take j ds)
       @ (ds ! j)\<lparr>component := fst (updateDependenciesVersionsOfComponent env (component (ds ! j))
                                      (item_dependencies (ds ! j)) cur)\<rparr>
       # drop (Suc j) ds
   \<and> snd (updateAllDepsSeries env cur ds) = Some e"
proof (induction ds arbitrary: j)
  case Nil
  then show ?case by simp
next
  case (Cons d ds)
  obtain c' e0 where u: "updateDependenciesVersionsOfComponent env (component d) (item_dependencies d) cur = (c', e0)"
    by (cases "updateDependenciesVersionsOfComponent env (component d) (item_dependencies d) cur")
  show ?case
  proof (cases j)
    case 0
    with Cons.prems(3) u show ?thesis by simp
  next
    case (Suc j')
    with Cons.prems(2) u have e0: "e0 = None" by (auto dest: spec[of _ 0])
    from Suc Cons.prems have "j' < length ds"
      "\<forall>k<j'. snd (updateDependenciesVersionsOfComponent env (component (ds ! k)) (item_dependencies (ds ! k)) cur) = None"
      "snd (updateDependenciesVersionsOfComponent env (component (ds ! j')) (item_dependencies (ds ! j')) cur) = Some e"
      by auto
    from Cons.IH[OF this] Suc u e0 show ?thesis
      by (auto split: prod.splits)
  qed
qed

text \<open>
  Claim C4, amended. When an edge of the component at position \<open>i\<close> of the batch is found
  in the lookup set and the dependency resolver gives no package name for it, the
  rewriting of the batch throws. It throws at the first component \<open>j\<close> of the batch that
  has such an edge, which is the component \<open>i\<close> itself when every component before it
  rewrites without throwing, and the error is the one of the source for the first such
  edge of that component: it names the edge and the component. The components before
  \<open>j\<close> are rewritten and have their dependency-resolver data updated, the component \<open>j\<close>
  is as its loop left it, and the components after it (so those after \<open>i\<close>) are
  untouched. No write to the store has been issued; the workflow ends with that error,
  having done nothing but the import.
\<close>

theorem missing_package_name_aborts_rewrite:
  fixes env :: "('x, 'k::linorder, 'p, 'b, 'r) env" and s :: "'x state"
  defines "cur \<equiv> map (\<lambda>d. legacy (comp_id (component d))) (depsUpdateItems s)"
  assumes i: "i < length (depsUpdateItems s)"
    and edge: "d \<in> set (dependencies (state_consumer (component (depsUpdateItems s ! i)))
                       @ devDependencies (state_consumer (component (depsUpdateItems s ! i))))"
    and matched: "searchWithoutVersion (cur @ map legacy (item_dependencies (depsUpdateItems s ! i))) (dep_id d) \<noteq> None"
    and nopkg: "\<not> truthy (findPackageName env (component (depsUpdateItems s ! i)) (bidToString env (dep_id d)))"
  shows "\<exists>s' j bad msg.
           j \<le> i
         \<and> (\<forall>k<j. snd (updateDependenciesVersionsOfComponent env (component (depsUpdateItems s ! k))
                          (item_dependencies (depsUpdateItems s ! k)) cur) = None)
         \<and> ((\<forall>k<i. snd (updateDependenciesVersionsOfComponent env (component (depsUpdateItems s ! k))
                           (item_dependencies (depsUpdateItems s ! k)) cur) = None) \<longrightarrow> j = i)
         \<and> find (\<lambda>d. searchWithoutVersion (cur @ map legacy (item_dependencies (depsUpdateItems s ! j))) (dep_id d) \<noteq> None
                      \<and> \<not> truthy (findPackageName env (component (depsUpdateItems s ! j)) (bidToString env (dep_id d))))
                (dependencies (state_consumer (component (depsUpdateItems s ! j)))
                 @ devDependencies (state_consumer (component (depsUpdateItems s ! j)))) = Some bad
         \<and> msg = ''unable to find the package-name of '' @ dquote @ bidToString env (dep_id bad) @ dquote
                  @ '' dependency inside the dependency-resolver data of ''
                  @ dquote @ cidToString env (comp_id (component (depsUpdateItems s ! j))) @ dquote
         \<and> updateAllDeps env s = (s', Some (Error msg))
         \<and> trace s' = trace s
         \<and> depsUpdateItems s'
             = map (\<lambda>d. d\<lparr>component := updateDependencyResolver env
                              (fst (updateDependenciesVersionsOfComponent env (component d) (item_dependencies d) cur))\<rparr>)
                   (take j (depsUpdateItems s))
               @ (depsUpdateItems s ! j)\<lparr>component :=
                    fst (updateDependenciesVersionsOfComponent env (component (depsUpdateItems s ! j))
                           (item_dependencies (depsUpdateItems s ! j)) cur)\<rparr>
               # drop (Suc j) (depsUpdateItems s)
         \<and> drop (Suc i) (depsUpdateItems s') = drop (Suc i) (depsUpdateItems s)
         \<and> (parseDevUpdatesItems env raw = Inr items \<and> s = planned env opts raw s0 items \<longrightarrow>
                updateDependenciesVersions env raw opts s0 = (s', Inl (Error msg))
                \<and> (\<exists>ids. trace s' = trace s0 @ [ScopeImport ids False]))"
proof -
  let ?ds = "depsUpdateItems s"
  let ?U = "\<lambda>d. updateDependenciesVersionsOfComponent env (component d) (item_dependencies d) cur"
  let ?r = "updateAllDepsSeries env cur ?ds"
  from rewrite_missing[OF edge matched nopkg]
  obtain msg0 where "snd (?U (?ds ! i)) = Some (Error msg0)" by blast
  from series_first_failure[OF i this]
  obtain j e where j: "j \<le> i" "snd (?U (?ds ! j)) = Some e" "\<forall>k<j. snd (?U (?ds ! k)) = None"
    by blast
  from j(1) i have jl: "j < length ?ds" by simp
  let ?bad = "\<lambda>d. searchWithoutVersion (cur @ map legacy (item_dependencies (?ds ! j))) (dep_id d) \<noteq> None
                      \<and> \<not> truthy (findPackageName env (component (?ds ! j)) (bidToString env (dep_id d)))"
  let ?deps = "dependencies (state_consumer (component (?ds ! j)))
                 @ devDependencies (state_consumer (component (?ds ! j)))"
  from j(2) obtain bad where bad: "find ?bad ?deps = Some bad"
    and e: "e = Error (''unable to find the package-name of '' @ dquote @ bidToString env (dep_id bad) @ dquote
                  @ '' dependency inside the dependency-resolver data of ''
                  @ dquote @ cidToString env (comp_id (component (?ds ! j))) @ dquote)"
    unfolding rewrite_snd updateDeps_snd by auto
  define msg where "msg = ''unable to find the package-name of '' @ dquote @ bidToString env (dep_id bad) @ dquote
                  @ '' dependency inside the dependency-resolver data of ''
                  @ dquote @ cidToString env (comp_id (component (?ds ! j))) @ dquote"
  from series_prefix[OF jl j(3) j(2)]
  have fr: "fst ?r = map (\<lambda>d. d\<lparr>component := updateDependencyResolver env (fst (?U d))\<rparr>) (take j ?ds)
                      @ (?ds ! j)\<lparr>component := fst (?U (?ds ! j))\<rparr> # drop (Suc j) ?ds"
    and sr: "snd ?r = Some e" by simp_all
  define s' where "s' = s\<lparr>depsUpdateItems := fst ?r\<rparr>"
  have run: "updateAllDeps env s = (s', Some (Error msg))"
    using sr e by (simp add: updateAllDeps_eq s'_def msg_def cur_def)
  have tr: "trace s' = trace s" by (simp add: s'_def)
  have items': "depsUpdateItems s'
       = map (\<lambda>d. d\<lparr>component := updateDependencyResolver env (fst (?U d))\<rparr>) (take j ?ds)
         @ (?ds ! j)\<lparr>component := fst (?U (?ds ! j))\<rparr> # drop (Suc j) ?ds"
    by (simp add: s'_def fr)
  have dj: "drop (Suc j) (depsUpdateItems s') = drop (Suc j) ?ds"
    using jl by (simp add: items')
  from j(1) obtain n where n: "Suc i = n + Suc j"
    by (metis add.commute add_Suc_right le_Suc_ex)
  have "drop (Suc i) (depsUpdateItems s') = drop n (drop (Suc j) (depsUpdateItems s'))"
    by (simp add: n)
  also have "\<dots> = drop (Suc i) ?ds"
    by (simp add: dj n)
  finally have dr: "drop (Suc i) (depsUpdateItems s') = drop (Suc i) ?ds" .
  have ji: "j = i" if all: "\<forall>k<i. snd (?U (?ds ! k)) = None"
  proof (rule ccontr)
    assume "j \<noteq> i"
    with j(1) have "j < i" by simp
    with all j(2) show False by auto
  qed
  have main: "updateDependenciesVersions env raw opts s0 = (s', Inl (Error msg))
                \<and> (\<exists>ids. trace s' = trace s0 @ [ScopeImport ids False])"
    if "parseDevUpdatesItems env raw = Inr items" "s = planned env opts raw s0 items"
  proof -
    from workflow_rewrite_error[OF that(1) run[unfolded that(2)]]
    have "updateDependenciesVersions env raw opts s0 = (s', Inl (Error msg))" .
    moreover have "\<exists>ids. trace s' = trace s0 @ [ScopeImport ids False]"
      using importAllMissing_trace[of env opts raw s0]
      by (simp add: tr that(2) planned_trace)
    ultimately show ?thesis by blast
  qed
  show ?thesis
  proof (intro exI[of _ s'] exI[of _ j] exI[of _ bad] exI[of _ msg] conjI)
    show "j \<le> i" by (rule j(1))
    show "\<forall>k<j. snd (?U (?ds ! k)) = None" by (rule j(3))
    show "(\<forall>k<i. snd (?U (?ds ! k)) = None) \<longrightarrow> j = i" using ji by blast
    show "find ?bad ?deps = Some bad" by (rule bad)
    show "msg = ''unable to find the package-name of '' @ dquote @ bidToString env (dep_id bad) @ dquote
                  @ '' dependency inside the dependency-resolver data of ''
                  @ dquote @ cidToString env (comp_id (component (?ds ! j))) @ dquote"
      by (rule msg_def)
    show "updateAllDeps env s = (s', Some (Error msg))" by (rule run)
    show "trace s' = trace s" by (rule tr)
    show "depsUpdateItems s'
       = map (\<lambda>d. d\<lparr>component := updateDependencyResolver env (fst (?U d))\<rparr>) (take j ?ds)
         @ (?ds ! j)\<lparr>component := fst (?U (?ds ! j))\<rparr> # drop (Suc j) ?ds"
      by (rule items')
    show "drop (Suc i) (depsUpdateItems s') = drop (Suc i) ?ds" by (rule dr)
    show "parseDevUpdatesItems env raw = Inr items \<and> s = planned env opts raw s0 items \<longrightarrow>
                updateDependenciesVersions env raw opts s0 = (s', Inl (Error msg))
                \<and> (\<exists>ids. trace s' = trace s0 @ [ScopeImport ids False])"
      using main by blast
  qed
qed

theorem missing_package_name_aborts_rewrite_witness:
  "snd (updateAllDeps sample_env sample_batch)
     = Some (Error (''unable to find the package-name of '' @ dquote @ ''s/b@1.0.0'' @ dquote
                    @ '' dependency inside the dependency-resolver data of ''
                    @ dquote @ ''s/d@0.0.1'' @ dquote))
   \<and> drop 2 (depsUpdateItems (fst (updateAllDeps sample_env sample_batch)))
     = [\<lparr>component = compB, item_dependencies = [], versionToTag = None\<rparr>]"
proof -
  let ?d = "\<lparr>dep_id = mkId ''s'' ''b'' (Some ''1.0.0''), packageName = None\<rparr>"
  let ?ds = "depsUpdateItems sample_batch"
  let ?cur = "map (\<lambda>d. legacy (comp_id (component d))) ?ds"
  have i: "1 < length ?ds"
    by (simp add: sample_batch_def)
  have edge: "?d \<in> set (dependencies (state_consumer (component (?ds ! 1)))
                       @ devDependencies (state_consumer (component (?ds ! 1))))"
    by (simp add: sample_batch_def compD_def)
  have matched: "searchWithoutVersion (?cur @ map legacy (item_dependencies (?ds ! 1))) (dep_id ?d) \<noteq> None"
    by code_simp
  have nopkg: "\<not> truthy (findPackageName sample_env (component (?ds ! 1)) (bidToString sample_env (dep_id ?d)))"
    by code_simp
  have "snd (updateDependenciesVersionsOfComponent sample_env (component (?ds ! 0))
              (item_dependencies (?ds ! 0)) ?cur) = None"
    by code_simp
  then have clean: "\<forall>k<1. snd (updateDependenciesVersionsOfComponent sample_env (component (?ds ! k))
              (item_dependencies (?ds ! k)) ?cur) = None"
    by simp
  have fnd: "find (\<lambda>d. searchWithoutVersion (?cur @ map legacy (item_dependencies (?ds ! 1))) (dep_id d) \<noteq> None
                      \<and> \<not> truthy (findPackageName sample_env (component (?ds ! 1)) (bidToString sample_env (dep_id d))))
                (dependencies (state_consumer (component (?ds ! 1)))
                 @ devDependencies (state_consumer (component (?ds ! 1)))) = Some ?d"
    by code_simp
  have str: "bidToString sample_env (dep_id ?d) = ''s/b@1.0.0''"
    "cidToString sample_env (comp_id (component (?ds ! 1))) = ''s/d@0.0.1''"
    by code_simp+
  note t = missing_package_name_aborts_rewrite[where raw = "[]" and items = "[]"
      and opts = "sample_options None None" and ?s0.0 = empty_state, OF i edge matched nopkg]
  from t show ?thesis
  proof (elim exE conjE)
    fix s' j bad msg
    assume r1: "(\<forall>k<1. snd (updateDependenciesVersionsOfComponent sample_env (component (?ds ! k))
              (item_dependencies (?ds ! k)) ?cur) = None) \<longrightarrow> j = 1"
      and r2: "find (\<lambda>d. searchWithoutVersion (?cur @ map legacy (item_dependencies (?ds ! j))) (dep_id d) \<noteq> None
                      \<and> \<not> truthy (findPackageName sample_env (component (?ds ! j)) (bidToString sample_env (dep_id d))))
                (dependencies (state_consumer (component (?ds ! j)))
                 @ devDependencies (state_consumer (component (?ds ! j)))) = Some bad"
      and r3: "msg = ''unable to find the package-name of '' @ dquote @ bidToString sample_env (dep_id bad) @ dquote
                  @ '' dependency inside the dependency-resolver data of ''
                  @ dquote @ cidToString sample_env (comp_id (component (?ds ! j))) @ dquote"
      and r4: "updateAllDeps sample_env sample_batch = (s', Some (Error msg))"
      and r5: "drop (Suc 1) (depsUpdateItems s') = drop (Suc 1) ?ds"
    from r1 clean have j: "j = 1" by blast
    from r2 fnd have bad: "bad = ?d" unfolding j by simp
    have a: "msg = ''unable to find the package-name of '' @ dquote @ ''s/b@1.0.0'' @ dquote
                    @ '' dependency inside the dependency-resolver data of ''
                    @ dquote @ ''s/d@0.0.1'' @ dquote"
      unfolding r3 j bad str by (rule refl)
    have "drop (Suc 1) ?ds = [\<lparr>component = compB, item_dependencies = [], versionToTag = None\<rparr>]"
      by (simp add: sample_batch_def)
    with r4 r5 a show ?thesis by (simp add: numeral_2_eq_2)
  qed
qed

text \<open>
  The claim C4 as it is written fails: in the batch of \<open>s/a\<close>, \<open>s/d\<close>, \<open>s/b\<close> the rewriting
  throws at \<open>s/d\<close>, whose edge has no package name, and \<open>s/a\<close>, earlier in the series, has
  its edge on \<open>s/b\<close> rewritten already.
\<close>

theorem missing_package_name_earlier_component_rewritten_counterexample:
  "snd (updateDependenciesVersions sample_env
          [raw_item ''s/a'' [], raw_item ''s/d'' [], raw_item ''s/b'' []]
          (sample_options (Some True) None) empty_state)
     = Inl (Error (''unable to find the package-name of '' @ dquote @ ''s/b@1.0.0'' @ dquote
                   @ '' dependency inside the dependency-resolver data of ''
                   @ dquote @ ''s/d@0.0.1'' @ dquote))
   \<and> comp_id (component (depsUpdateItems (fst (updateDependenciesVersions sample_env
          [raw_item ''s/a'' [], raw_item ''s/d'' [], raw_item ''s/b'' []]
          (sample_options (Some True) None) empty_state)) ! 0))
     = comp_id compA
   \<and> dependencies (state_consumer (component (depsUpdateItems (fst (updateDependenciesVersions sample_env
          [raw_item ''s/a'' [], raw_item ''s/d'' [], raw_item ''s/b'' []]
          (sample_options (Some True) None) empty_state)) ! 0)))
     = [\<lparr>dep_id = mkId ''s'' ''b'' (Some ''2.0.0''), packageName = Some ''@s/b''\<rparr>]
   \<and> dependencies (state_consumer compA)
     = [\<lparr>dep_id = mkId ''s'' ''b'' (Some ''1.0.0''), packageName = Some ''@s/b-old''\<rparr>]"
  by code_simp

subsection \<open>Edges between the components of a batch\<close>

lemma planned_lookup_ids:
  "map (\<lambda>d. legacy (comp_id (component d))) (depsUpdateItems (planned env opts raw s0 items))
   = map (\<lambda>d. legacy (comp_id (component d))) items"
  by (simp add: planned_items on_legacy_def comp_def)

text \<open>
  Claim C2, on the batch of \<open>s/a\<close> and \<open>s/b\<close>, released with \<open>tag\<close>. The planner gives \<open>s/b\<close>
  the version 3.0.0, and the workflow succeeds; the edge of \<open>s/a\<close> on \<open>s/b\<close> is rewritten to
  2.0.0, the version \<open>s/b\<close> was loaded with, not to the planned one. The lookup set of
  \<^verbatim>\<open>updateAllDeps\<close> is made of \<^verbatim>\<open>component.id._legacy\<close>, which the planner, assigning
  \<^verbatim>\<open>state._consumer.version\<close>, does not change.
\<close>

theorem intra_batch_edge_gets_loaded_version:
  "\<not> isl (snd (updateDependenciesVersions sample_env [raw_item ''s/a'' [], raw_item ''s/b'' []]
             (sample_options (Some True) None) empty_state))
   \<and> map c_id (legacyComponents (fst (updateDependenciesVersions sample_env
          [raw_item ''s/a'' [], raw_item ''s/b'' []] (sample_options (Some True) None) empty_state)))
     = [mkId ''s'' ''a'' (Some ''0.0.2''), mkId ''s'' ''b'' (Some ''3.0.0'')]
   \<and> map dep_id (dependencies (state_consumer (component (depsUpdateItems (fst (updateDependenciesVersions
          sample_env [raw_item ''s/a'' [], raw_item ''s/b'' []] (sample_options (Some True) None) empty_state)) ! 0))))
     = [mkId ''s'' ''b'' (Some ''2.0.0'')]
   \<and> c_id (state_consumer compB) = mkId ''s'' ''b'' (Some ''2.0.0'')"
  by code_simp

end
